theory Spec2Isabelle
  imports Main
begin

section \<open>Constants of GxpFruDevice.cpp\<close>

text \<open>
  A C++ \<^verbatim>\<open>std::string\<close> is a sequence of \<^verbatim>\<open>char\<close>, one byte each: it is modelled by
  \<^typ>\<open>string\<close>, whose characters are the 256 byte values. The content of a file is a
  \<^typ>\<open>string\<close> as well.
\<close>

definition unknown :: string where
  "unknown = ''Unknown''"

definition eeproms :: "string list" where
  "eeproms =
     [''/sys/bus/i2c/devices/2-0055/eeprom'',
      ''/sys/bus/i2c/devices/2-0054/eeprom'',
      ''/sys/bus/i2c/devices/2-0050/eeprom'']"

definition SerialNumberOffset :: nat where "SerialNumberOffset = 1"
definition SerialNumberSize :: nat where "SerialNumberSize = 16"
definition PartNumberOffset :: nat where "PartNumberOffset = 109"
definition PartNumberSize :: nat where "PartNumberSize = 16"
definition PcaSerialNumberOffset :: nat where "PcaSerialNumberOffset = 144"
definition PcaSerialNumberSize :: nat where "PcaSerialNumberSize = 16"
definition PcaPartNumberOffset :: nat where "PcaPartNumberOffset = 160"
definition PcaPartNumberSize :: nat where "PcaPartNumberSize = 16"
definition MAC0AddressOffset :: nat where "MAC0AddressOffset = 132"
definition MAC1AddressOffset :: nat where "MAC1AddressOffset = 138"
definition MACAddressSize :: nat where "MACAddressSize = 6"

definition server_id_path :: string where
  "server_id_path = ''/sys/class/soc/xreg/server_id''"

definition NUL :: char where
  "NUL = CHR 0x00"

section \<open>The input file stream\<close>

text \<open>
  The files the program can open: a path that cannot be opened maps to \<open>None\<close>, one that
  can to the bytes of the file. A byte source is its bytes; a read past its end is short.
  Device errors during a read are outside the model.
\<close>

type_synonym filesystem = "string \<Rightarrow> string option"

text \<open>
  \<^verbatim>\<open>std::ifstream\<close>: whether a file is attached, the bytes of that file, the read position
  and the two state flags the program can raise. \<^verbatim>\<open>!fin\<close> is \<open>fail\<close>.
\<close>

record ifstream =
  is_open :: bool
  content :: string
  gpos :: nat
  failbit :: bool
  eofbit :: bool

definition ifstream_new :: ifstream where
  "ifstream_new = \<lparr>is_open = False, content = [], gpos = 0, failbit = False, eofbit = False\<rparr>"

definition fail :: "ifstream \<Rightarrow> bool" where
  "fail fin = failbit fin"

definition good :: "ifstream \<Rightarrow> bool" where
  "good fin = (\<not> failbit fin \<and> \<not> eofbit fin)"

text \<open>
  \<^verbatim>\<open>open\<close> fails on a stream that is already open and on a path that cannot be opened,
  raising failbit; when it succeeds it clears the state (C++11 and later).
\<close>

definition open_file :: "ifstream \<Rightarrow> filesystem \<Rightarrow> string \<Rightarrow> ifstream" where
  "open_file fin fs p =
     (if is_open fin then fin\<lparr>failbit := True\<rparr>
      else case fs p of
             None \<Rightarrow> fin\<lparr>failbit := True\<rparr>
           | Some bytes \<Rightarrow>
               fin\<lparr>is_open := True, content := bytes, gpos := 0, failbit := False, eofbit := False\<rparr>)"

definition close_file :: "ifstream \<Rightarrow> ifstream" where
  "close_file fin =
     (if is_open fin then fin\<lparr>is_open := False, content := [], gpos := 0\<rparr>
      else fin\<lparr>failbit := True\<rparr>)"

text \<open>
  \<^verbatim>\<open>seekg(offset, std::ios::beg)\<close> clears eofbit, then moves the read position unless the
  stream has failed. A position past the end of the file is accepted; a stream with no
  file attached cannot seek.
\<close>

definition seekg :: "ifstream \<Rightarrow> nat \<Rightarrow> ifstream" where
  "seekg fin off =
     (let fin1 = fin\<lparr>eofbit := False\<rparr>
      in if fail fin1 then fin1
         else if is_open fin1 then fin1\<lparr>gpos := off\<rparr>
         else fin1\<lparr>failbit := True\<rparr>)"

text \<open>
  \<^verbatim>\<open>read(buf, n)\<close> copies the bytes that are available, at most \<open>n\<close>, to the front of the
  buffer and leaves the rest of the buffer as it was. Fewer than \<open>n\<close> bytes raise eofbit
  and failbit. On a stream that is not good nothing is read and failbit is raised.
\<close>

definition read :: "ifstream \<Rightarrow> string \<Rightarrow> nat \<Rightarrow> string \<times> ifstream" where
  "read fin buf n =
     (if \<not> good fin then (buf, fin\<lparr>failbit := True\<rparr>)
      else
        let got = take n (drop (gpos fin) (content fin));
            fin1 = fin\<lparr>gpos := gpos fin + length got\<rparr>
        in (got @ drop (length got) buf,
            if length got < n then fin1\<lparr>failbit := True, eofbit := True\<rparr> else fin1))"

text \<open>
  \<^verbatim>\<open>getline(fin, str)\<close>: on a good stream the string is emptied and filled with the bytes
  up to the next newline, which is consumed and not stored. Reaching the end of the file
  first raises eofbit; when not even a newline was extracted failbit is raised too.
\<close>

definition getline :: "ifstream \<Rightarrow> string \<Rightarrow> string \<times> ifstream" where
  "getline fin str =
     (if \<not> good fin then (str, fin\<lparr>failbit := True\<rparr>)
      else
        let rest = drop (gpos fin) (content fin);
            line = takeWhile (\<lambda>c. c \<noteq> CHR 0x0A) rest
        in if length line < length rest
           then (line, fin\<lparr>gpos := gpos fin + length line + 1\<rparr>)
           else (line, fin\<lparr>gpos := gpos fin + length line, eofbit := True,
                          failbit := (line = [])\<rparr>))"

section \<open>Field extraction\<close>

definition GetServerId :: "filesystem \<Rightarrow> string" where
  "GetServerId fs =
     (let fin = open_file ifstream_new fs server_id_path
      in if fail fin then unknown
         else let (ident, fin1) = getline fin []; fin2 = close_file fin1 in ident)"

definition GetManufactuer :: string where
  "GetManufactuer = ''Hewlett Packard Enterprise''"

definition GetStr :: "ifstream \<Rightarrow> nat \<Rightarrow> nat \<Rightarrow> string \<times> ifstream" where
  "GetStr fin offset sz =
     (if fail fin then (unknown, fin)
      else
        let v = replicate sz NUL;
            fin1 = seekg fin offset
        in read fin1 v sz)"

subsection \<open>Hexadecimal output\<close>

text \<open>
  \<^verbatim>\<open>static_cast<int>(v[i])\<close> on a plain \<^verbatim>\<open>char\<close>. Whether plain \<^verbatim>\<open>char\<close> is signed is
  fixed by the platform the program is built for, not by the program: it is the
  parameter \<open>sc\<close>. A signed char of 128 or more is a negative number.
\<close>

definition char_to_int :: "bool \<Rightarrow> char \<Rightarrow> int" where
  "char_to_int sc c =
     (let n = int (of_char c) in if sc \<and> 128 \<le> n then n - 256 else n)"

definition hex_digit :: "nat \<Rightarrow> char" where
  "hex_digit d = ''0123456789abcdef'' ! d"

fun to_hex :: "nat \<Rightarrow> string" where
  "to_hex n = (if n < 16 then [hex_digit n] else to_hex (n div 16) @ [hex_digit (n mod 16)])"

declare to_hex.simps [simp del]

text \<open>
  Inserting an \<^verbatim>\<open>int\<close> into a stream set to base 16 with fill character 0 and field
  width 2: the value is converted to \<^verbatim>\<open>unsigned int\<close> (32 bits), written in lower-case
  hexadecimal with no leading zeros, and filled on the left up to the width. The width
  is a minimum.
\<close>

definition put_hex :: "int \<Rightarrow> string" where
  "put_hex i =
     (let digits = to_hex (nat (i mod 2 ^ 32))
      in replicate (2 - length digits) CHR ''0'' @ digits)"

text \<open>The output part of \<^verbatim>\<open>GetMACAddress\<close>: the first byte, then colon and byte for the rest.\<close>

definition mac_string :: "bool \<Rightarrow> string \<Rightarrow> string" where
  "mac_string sc v =
     foldl (\<lambda>ss i. ss @ '':'' @ put_hex (char_to_int sc (v ! i)))
       (put_hex (char_to_int sc (v ! 0))) [1..<length v]"

definition GetMACAddress :: "bool \<Rightarrow> ifstream \<Rightarrow> nat \<Rightarrow> string \<times> ifstream" where
  "GetMACAddress sc fin offset =
     (let v = replicate MACAddressSize NUL;
          (v1, fin1) = (if \<not> fail fin then read (seekg fin offset) v MACAddressSize
                        else (v, fin))
      in (mac_string sc v1, fin1))"

subsection \<open>The six fields of one EEPROM\<close>

text \<open>
  The body of the loop over the candidates, in the order of the source: the six
  extractions share one stream, each starting from the state the previous one left.
\<close>

record fru_fields =
  PRODUCT_PART_NUMBER :: string
  PRODUCT_SERIAL_NUMBER :: string
  PCA_PART_NUMBER :: string
  PCA_SERIAL_NUMBER :: string
  MAC0 :: string
  MAC1 :: string

definition read_fields :: "bool \<Rightarrow> ifstream \<Rightarrow> fru_fields \<times> ifstream" where
  "read_fields sc fin =
     (let (pn, fin1) = GetStr fin PartNumberOffset PartNumberSize;
          (sn, fin2) = GetStr fin1 SerialNumberOffset SerialNumberSize;
          (ppn, fin3) = GetStr fin2 PcaPartNumberOffset PcaPartNumberSize;
          (psn, fin4) = GetStr fin3 PcaSerialNumberOffset PcaSerialNumberSize;
          (m0, fin5) = GetMACAddress sc fin4 MAC0AddressOffset;
          (m1, fin6) = GetMACAddress sc fin5 MAC1AddressOffset
      in (\<lparr>PRODUCT_PART_NUMBER = pn, PRODUCT_SERIAL_NUMBER = sn, PCA_PART_NUMBER = ppn,
           PCA_SERIAL_NUMBER = psn, MAC0 = m0, MAC1 = m1\<rparr>, fin6))"

section \<open>The object server\<close>

text \<open>
  The bus library is used through five operations. An interface object has a path, an
  interface name, its registered properties and methods, and becomes visible on the bus
  when it is initialized; after that nothing more can be registered on it. The object
  server keeps the interfaces it has created in a list. A \<^verbatim>\<open>shared_ptr\<close> to an
  interface is the number the server gave it at creation, \<^verbatim>\<open>nullptr\<close> is \<open>None\<close>.
\<close>

record dbus_interface =
  obj_path :: string
  iface_name :: string
  properties :: "(string \<times> string) list"
  methods :: "string list"
  initialized :: bool

record object_server =
  interfaces :: "(nat \<times> dbus_interface) list"
  next_ptr :: nat

definition object_server_new :: object_server where
  "object_server_new = \<lparr>interfaces = [], next_ptr = 0\<rparr>"

definition add_interface :: "object_server \<Rightarrow> string \<Rightarrow> string \<Rightarrow> nat \<times> object_server" where
  "add_interface srv path name =
     (next_ptr srv,
      srv\<lparr>interfaces := interfaces srv @
             [(next_ptr srv, \<lparr>obj_path = path, iface_name = name, properties = [], methods = [],
                              initialized = False\<rparr>)],
          next_ptr := Suc (next_ptr srv)\<rparr>)"

text \<open>\<^verbatim>\<open>remove_interface\<close> erases the first entry that is the given pointer, if there is one.\<close>

fun erase_first :: "nat \<Rightarrow> (nat \<times> dbus_interface) list \<Rightarrow> (nat \<times> dbus_interface) list" where
  "erase_first p [] = []"
| "erase_first p (e # es) = (if fst e = p then es else e # erase_first p es)"

definition remove_interface :: "object_server \<Rightarrow> nat \<Rightarrow> object_server" where
  "remove_interface srv p = srv\<lparr>interfaces := erase_first p (interfaces srv)\<rparr>"

definition update_iface ::
  "object_server \<Rightarrow> nat \<Rightarrow> (dbus_interface \<Rightarrow> dbus_interface) \<Rightarrow> object_server" where
  "update_iface srv p f =
     srv\<lparr>interfaces := map (\<lambda>e. if fst e = p then (fst e, f (snd e)) else e) (interfaces srv)\<rparr>"

definition register_property :: "object_server \<Rightarrow> nat \<Rightarrow> string \<Rightarrow> string \<Rightarrow> object_server" where
  "register_property srv p name val =
     update_iface srv p
       (\<lambda>i. if initialized i \<or> map_of (properties i) name \<noteq> None then i
            else i\<lparr>properties := properties i @ [(name, val)]\<rparr>)"

definition register_method :: "object_server \<Rightarrow> nat \<Rightarrow> string \<Rightarrow> object_server" where
  "register_method srv p name =
     update_iface srv p
       (\<lambda>i. if initialized i \<or> name \<in> set (methods i) then i
            else i\<lparr>methods := methods i @ [name]\<rparr>)"

definition initialize :: "object_server \<Rightarrow> nat \<Rightarrow> object_server" where
  "initialize srv p = update_iface srv p (\<lambda>i. i\<lparr>initialized := True\<rparr>)"

text \<open>What a client of the bus sees: the interfaces at a path, and a property of one.\<close>

definition objects_at :: "object_server \<Rightarrow> string \<Rightarrow> (nat \<times> dbus_interface) list" where
  "objects_at srv path = filter (\<lambda>e. obj_path (snd e) = path) (interfaces srv)"

definition get_property :: "object_server \<Rightarrow> nat \<Rightarrow> string \<Rightarrow> string option" where
  "get_property srv p name =
     (case map_of (interfaces srv) p of
        None \<Rightarrow> None
      | Some i \<Rightarrow> map_of (properties i) name)"

section \<open>Scan and rescan\<close>

definition productName :: string where
  "productName = ''/xyz/openbmc_project/FruDevice/HPE''"

definition managerPath :: string where
  "managerPath = ''/xyz/openbmc_project/FruDevice''"

text \<open>
  The loop of \<^verbatim>\<open>AddFRUObjectToDbus\<close> over the candidates. One stream is used for all of
  them. The first candidate that opens has its six fields registered, is closed, and
  ends the loop.
\<close>

fun eeprom_loop ::
  "bool \<Rightarrow> filesystem \<Rightarrow> string list \<Rightarrow> ifstream \<Rightarrow> object_server \<Rightarrow> nat
     \<Rightarrow> object_server \<times> ifstream" where
  "eeprom_loop sc fs [] fin srv iface = (srv, fin)"
| "eeprom_loop sc fs (eeprom # rest) fin srv iface =
     (let fin0 = open_file fin fs eeprom
      in if is_open fin0 then
           let (pn, fin1) = GetStr fin0 PartNumberOffset PartNumberSize;
               srv1 = register_property srv iface ''PRODUCT_PART_NUMBER'' pn;
               (sn, fin2) = GetStr fin1 SerialNumberOffset SerialNumberSize;
               srv2 = register_property srv1 iface ''PRODUCT_SERIAL_NUMBER'' sn;
               (ppn, fin3) = GetStr fin2 PcaPartNumberOffset PcaPartNumberSize;
               srv3 = register_property srv2 iface ''PCA_PART_NUMBER'' ppn;
               (psn, fin4) = GetStr fin3 PcaSerialNumberOffset PcaSerialNumberSize;
               srv4 = register_property srv3 iface ''PCA_SERIAL_NUMBER'' psn;
               (m0, fin5) = GetMACAddress sc fin4 MAC0AddressOffset;
               srv5 = register_property srv4 iface ''MAC0'' m0;
               (m1, fin6) = GetMACAddress sc fin5 MAC1AddressOffset;
               srv6 = register_property srv5 iface ''MAC1'' m1
           in (srv6, close_file fin6)
         else eeprom_loop sc fs rest fin0 srv iface)"

definition AddFRUObjectToDbus :: "bool \<Rightarrow> filesystem \<Rightarrow> object_server \<Rightarrow> object_server \<times> nat" where
  "AddFRUObjectToDbus sc fs srv =
     (let (iface, srv1) = add_interface srv productName ''xyz.openbmc_project.FruDevice'';
          srv2 = register_property srv1 iface ''SERVER_ID'' (GetServerId fs);
          srv3 = register_property srv2 iface ''PRODUCT_MANUFACTURER'' GetManufactuer;
          (srv4, fin) = eeprom_loop sc fs eeproms ifstream_new srv3 iface
      in (initialize srv4 iface, iface))"

definition rescanBus ::
  "bool \<Rightarrow> filesystem \<Rightarrow> object_server \<Rightarrow> nat option \<Rightarrow> object_server \<times> nat option" where
  "rescanBus sc fs srv iface =
     (let srv1 = (case iface of None \<Rightarrow> srv | Some p \<Rightarrow> remove_interface srv p);
          (srv2, iface') = AddFRUObjectToDbus sc fs srv1
      in (srv2, Some iface'))"

text \<open>
  The state of \<^verbatim>\<open>main\<close>: the object server and its two interface pointers.
  \<open>main_init\<close> is \<^verbatim>\<open>main\<close> up to the initialization of the manager, \<open>ReScan\<close> is the
  method registered on the manager, and \<open>startup\<close> is \<^verbatim>\<open>main\<close> up to and including the
  initial scan, which is the same call. The event loop then serves any number of
  \<open>ReScan\<close> calls, each seeing the files as they are at that time.
\<close>

record program_state =
  objServer :: object_server
  ifaceFruDevice :: "nat option"
  ifaceFruDeviceManager :: "nat option"

definition main_init :: program_state where
  "main_init =
     (let (mgr, srv1) = add_interface object_server_new managerPath
                          ''xyz.openbmc_project.FruDeviceManager'';
          srv2 = register_method srv1 mgr ''ReScan'';
          srv3 = initialize srv2 mgr
      in \<lparr>objServer = srv3, ifaceFruDevice = None, ifaceFruDeviceManager = Some mgr\<rparr>)"

definition ReScan :: "bool \<Rightarrow> filesystem \<Rightarrow> program_state \<Rightarrow> program_state" where
  "ReScan sc fs st =
     (let (srv, fru) = rescanBus sc fs (objServer st) (ifaceFruDevice st)
      in st\<lparr>objServer := srv, ifaceFruDevice := fru\<rparr>)"

definition startup :: "bool \<Rightarrow> filesystem \<Rightarrow> program_state" where
  "startup sc fs = ReScan sc fs main_init"

fun io_run :: "bool \<Rightarrow> filesystem list \<Rightarrow> program_state \<Rightarrow> program_state" where
  "io_run sc [] st = st"
| "io_run sc (fs # rest) st = io_run sc rest (ReScan sc fs st)"

subsection \<open>The intermediate states of a scan\<close>

text \<open>
  The object server after each statement of \<^verbatim>\<open>rescanBus\<close> that changes it, in order. The
  last one is the state \<^verbatim>\<open>rescanBus\<close> returns.
\<close>

fun eeprom_loop_trace ::
  "bool \<Rightarrow> filesystem \<Rightarrow> string list \<Rightarrow> ifstream \<Rightarrow> object_server \<Rightarrow> nat
     \<Rightarrow> object_server list" where
  "eeprom_loop_trace sc fs [] fin srv iface = []"
| "eeprom_loop_trace sc fs (eeprom # rest) fin srv iface =
     (let fin0 = open_file fin fs eeprom
      in if is_open fin0 then
           let (pn, fin1) = GetStr fin0 PartNumberOffset PartNumberSize;
               srv1 = register_property srv iface ''PRODUCT_PART_NUMBER'' pn;
               (sn, fin2) = GetStr fin1 SerialNumberOffset SerialNumberSize;
               srv2 = register_property srv1 iface ''PRODUCT_SERIAL_NUMBER'' sn;
               (ppn, fin3) = GetStr fin2 PcaPartNumberOffset PcaPartNumberSize;
               srv3 = register_property srv2 iface ''PCA_PART_NUMBER'' ppn;
               (psn, fin4) = GetStr fin3 PcaSerialNumberOffset PcaSerialNumberSize;
               srv4 = register_property srv3 iface ''PCA_SERIAL_NUMBER'' psn;
               (m0, fin5) = GetMACAddress sc fin4 MAC0AddressOffset;
               srv5 = register_property srv4 iface ''MAC0'' m0;
               (m1, fin6) = GetMACAddress sc fin5 MAC1AddressOffset;
               srv6 = register_property srv5 iface ''MAC1'' m1
           in [srv1, srv2, srv3, srv4, srv5, srv6]
         else eeprom_loop_trace sc fs rest fin0 srv iface)"

definition AddFRUObjectToDbus_trace ::
  "bool \<Rightarrow> filesystem \<Rightarrow> object_server \<Rightarrow> object_server list" where
  "AddFRUObjectToDbus_trace sc fs srv =
     (let (iface, srv1) = add_interface srv productName ''xyz.openbmc_project.FruDevice'';
          srv2 = register_property srv1 iface ''SERVER_ID'' (GetServerId fs);
          srv3 = register_property srv2 iface ''PRODUCT_MANUFACTURER'' GetManufactuer;
          (srv4, fin) = eeprom_loop sc fs eeproms ifstream_new srv3 iface
      in [srv1, srv2, srv3] @ eeprom_loop_trace sc fs eeproms ifstream_new srv3 iface @
         [initialize srv4 iface])"

definition rescanBus_trace ::
  "bool \<Rightarrow> filesystem \<Rightarrow> object_server \<Rightarrow> nat option \<Rightarrow> object_server list" where
  "rescanBus_trace sc fs srv iface =
     (case iface of
        None \<Rightarrow> AddFRUObjectToDbus_trace sc fs srv
      | Some p \<Rightarrow> remove_interface srv p # AddFRUObjectToDbus_trace sc fs (remove_interface srv p))"

section \<open>Notions used in the statements\<close>

text \<open>The manager interface as \<^verbatim>\<open>main\<close> leaves it.\<close>

definition manager_object :: dbus_interface where
  "manager_object =
     \<lparr>obj_path = managerPath, iface_name = ''xyz.openbmc_project.FruDeviceManager'',
      properties = [], methods = [''ReScan''], initialized = True\<rparr>"

text \<open>Every pointer the server has handed out is below the next one it will hand out.\<close>

definition fresh_ptrs :: "object_server \<Rightarrow> bool" where
  "fresh_ptrs srv = list_all (\<lambda>e. fst e < next_ptr srv) (interfaces srv)"

text \<open>The stream as a successful \<^verbatim>\<open>open\<close> leaves it.\<close>

definition opened :: "string \<Rightarrow> ifstream" where
  "opened b = \<lparr>is_open = True, content = b, gpos = 0, failbit = False, eofbit = False\<rparr>"

text \<open>The FRU interface with the two properties every scan registers, then some more.\<close>

definition fru_object :: "filesystem \<Rightarrow> (string \<times> string) list \<Rightarrow> dbus_interface" where
  "fru_object fs props =
     \<lparr>obj_path = productName, iface_name = ''xyz.openbmc_project.FruDevice'',
      properties = (''SERVER_ID'', GetServerId fs) #
                   (''PRODUCT_MANUFACTURER'', GetManufactuer) # props,
      methods = [], initialized = True\<rparr>"

text \<open>
  The shape of the program state between two calls: the manager at pointer 0 and, once
  a scan has run, one initialized interface at the FRU path, held by \<open>ifaceFruDevice\<close>.
\<close>

definition settled :: "program_state \<Rightarrow> bool" where
  "settled st =
     (ifaceFruDeviceManager st = Some 0 \<and> 0 < next_ptr (objServer st) \<and>
      (case ifaceFruDevice st of
         None \<Rightarrow> interfaces (objServer st) = [(0, manager_object)]
       | Some p \<Rightarrow>
           0 < p \<and> p < next_ptr (objServer st) \<and>
           (\<exists>obj. interfaces (objServer st) = [(0, manager_object), (p, obj)] \<and>
                  obj_path obj = productName \<and> initialized obj)))"

section \<open>Hexadecimal output and the stream, step by step\<close>

lemma to_hex_lt16: "n < 16 \<Longrightarrow> to_hex n = [hex_digit n]"
  by (subst to_hex.simps) simp

lemma to_hex_lt256:
  "16 \<le> n \<Longrightarrow> n < 256 \<Longrightarrow> to_hex n = [hex_digit (n div 16), hex_digit (n mod 16)]"
  by (subst to_hex.simps) (simp add: to_hex_lt16 less_mult_imp_div_less)

lemma hex_digit_0: "hex_digit 0 = CHR ''0''"
  by (simp add: hex_digit_def)

lemma put_hex_byte:
  assumes "0 \<le> i" "i < 256"
  shows "put_hex i = [hex_digit (nat i div 16), hex_digit (nat i mod 16)]"
proof -
  have m: "i mod 2 ^ 32 = i" using assms by simp
  show ?thesis
  proof (cases "nat i < 16")
    case True
    then show ?thesis unfolding put_hex_def m by (simp add: to_hex_lt16 hex_digit_0)
  next
    case False
    then have "to_hex (nat i) = [hex_digit (nat i div 16), hex_digit (nat i mod 16)]"
      using assms by (intro to_hex_lt256) auto
    then show ?thesis unfolding put_hex_def m by simp
  qed
qed

lemma put_hex_0: "put_hex 0 = ''00''"
  using put_hex_byte [of 0] by (simp add: hex_digit_def)

lemma char_to_int_NUL: "char_to_int sc NUL = 0"
  by (simp add: char_to_int_def NUL_def)

lemma mac_string_6:
  "mac_string sc [a, b, c, d, e, f] =
     put_hex (char_to_int sc a) @ '':'' @ put_hex (char_to_int sc b) @ '':'' @
     put_hex (char_to_int sc c) @ '':'' @ put_hex (char_to_int sc d) @ '':'' @
     put_hex (char_to_int sc e) @ '':'' @ put_hex (char_to_int sc f)"
  by (simp add: mac_string_def upt_conv_Cons)

lemma replicate_6: "replicate 6 x = [x, x, x, x, x, x]"
  by (simp add: numeral_eq_Suc)

lemma mac_string_zero: "mac_string sc (replicate MACAddressSize NUL) = ''00:00:00:00:00:00''"
  by (simp add: MACAddressSize_def replicate_6 mac_string_6 char_to_int_NUL put_hex_0)

lemma GetStr_failed: "fail fin \<Longrightarrow> GetStr fin off sz = (unknown, fin)"
  by (simp add: GetStr_def)

lemma GetMACAddress_failed:
  "fail fin \<Longrightarrow> GetMACAddress sc fin off = (''00:00:00:00:00:00'', fin)"
  by (simp add: GetMACAddress_def mac_string_zero)

lemma GetStr_fst:
  assumes "is_open fin" "\<not> fail fin"
  shows "fst (GetStr fin off sz) =
           take sz (drop off (content fin)) @
           replicate (sz - length (take sz (drop off (content fin)))) NUL"
  using assms by (simp add: GetStr_def seekg_def read_def good_def fail_def Let_def)

lemma GetStr_snd:
  assumes "is_open fin" "\<not> fail fin" "0 < sz"
  shows "snd (GetStr fin off sz) =
           \<lparr>is_open = True, content = content fin,
            gpos = off + length (take sz (drop off (content fin))),
            failbit = (length (content fin) < off + sz),
            eofbit = (length (content fin) < off + sz)\<rparr>"
  using assms by (auto simp add: GetStr_def seekg_def read_def good_def fail_def Let_def)

lemma GetMACAddress_fst:
  assumes "is_open fin" "\<not> fail fin"
  shows "fst (GetMACAddress sc fin off) =
           mac_string sc (take 6 (drop off (content fin)) @
             replicate (6 - length (take 6 (drop off (content fin)))) NUL)"
  using assms
  by (simp add: GetMACAddress_def MACAddressSize_def seekg_def read_def good_def fail_def Let_def)

lemma GetMACAddress_snd:
  assumes "is_open fin" "\<not> fail fin"
  shows "snd (GetMACAddress sc fin off) =
           \<lparr>is_open = True, content = content fin,
            gpos = off + length (take 6 (drop off (content fin))),
            failbit = (length (content fin) < off + 6),
            eofbit = (length (content fin) < off + 6)\<rparr>"
  using assms
  by (auto simp add: GetMACAddress_def MACAddressSize_def seekg_def read_def good_def fail_def Let_def)

lemma GetStr_open:
  assumes "is_open fin" "\<not> fail fin" "0 < sz"
  shows "GetStr fin off sz =
           (take sz (drop off (content fin)) @
              replicate (sz - length (take sz (drop off (content fin)))) NUL,
            \<lparr>is_open = True, content = content fin,
             gpos = off + length (take sz (drop off (content fin))),
             failbit = (length (content fin) < off + sz),
             eofbit = (length (content fin) < off + sz)\<rparr>)"
  using GetStr_fst [OF assms(1,2)] GetStr_snd [OF assms] by (simp add: prod_eq_iff)

lemma GetMACAddress_open:
  assumes "is_open fin" "\<not> fail fin"
  shows "GetMACAddress sc fin off =
           (mac_string sc (take 6 (drop off (content fin)) @
              replicate (6 - length (take 6 (drop off (content fin)))) NUL),
            \<lparr>is_open = True, content = content fin,
             gpos = off + length (take 6 (drop off (content fin))),
             failbit = (length (content fin) < off + 6),
             eofbit = (length (content fin) < off + 6)\<rparr>)"
  using GetMACAddress_fst [OF assms] GetMACAddress_snd [OF assms] by (simp add: prod_eq_iff)

lemmas layout_defs =
  SerialNumberOffset_def SerialNumberSize_def PartNumberOffset_def PartNumberSize_def
  PcaSerialNumberOffset_def PcaSerialNumberSize_def PcaPartNumberOffset_def
  PcaPartNumberSize_def MAC0AddressOffset_def MAC1AddressOffset_def

lemma read_fields_full:
  assumes "is_open fin" "\<not> fail fin" "176 \<le> length (content fin)"
  shows "fst (read_fields sc fin) =
           \<lparr>PRODUCT_PART_NUMBER = take 16 (drop 109 (content fin)),
            PRODUCT_SERIAL_NUMBER = take 16 (drop 1 (content fin)),
            PCA_PART_NUMBER = take 16 (drop 160 (content fin)),
            PCA_SERIAL_NUMBER = take 16 (drop 144 (content fin)),
            MAC0 = mac_string sc (take 6 (drop 132 (content fin))),
            MAC1 = mac_string sc (take 6 (drop 138 (content fin)))\<rparr>"
  using assms
  by (auto simp add: read_fields_def layout_defs GetStr_open GetMACAddress_open fail_def min_def)

lemma read_fields_mid:
  assumes "is_open fin" "\<not> fail fin" "125 \<le> length (content fin)" "length (content fin) < 176"
  shows "fst (read_fields sc fin) =
           \<lparr>PRODUCT_PART_NUMBER = take 16 (drop 109 (content fin)),
            PRODUCT_SERIAL_NUMBER = take 16 (drop 1 (content fin)),
            PCA_PART_NUMBER = take 16 (drop 160 (content fin)) @
               replicate (16 - length (take 16 (drop 160 (content fin)))) NUL,
            PCA_SERIAL_NUMBER = unknown,
            MAC0 = ''00:00:00:00:00:00'',
            MAC1 = ''00:00:00:00:00:00''\<rparr>"
  using assms
  by (auto simp add: read_fields_def layout_defs GetStr_open GetMACAddress_open GetStr_failed
      GetMACAddress_failed fail_def min_def)

lemma read_fields_short:
  assumes "is_open fin" "\<not> fail fin" "length (content fin) < 125"
  shows "fst (read_fields sc fin) =
           \<lparr>PRODUCT_PART_NUMBER = take 16 (drop 109 (content fin)) @
               replicate (16 - length (take 16 (drop 109 (content fin)))) NUL,
            PRODUCT_SERIAL_NUMBER = unknown,
            PCA_PART_NUMBER = unknown,
            PCA_SERIAL_NUMBER = unknown,
            MAC0 = ''00:00:00:00:00:00'',
            MAC1 = ''00:00:00:00:00:00''\<rparr>"
  using assms
  by (simp add: read_fields_def layout_defs GetStr_open GetMACAddress_open GetStr_failed
      GetMACAddress_failed fail_def min_def)

section \<open>The MAC formatter\<close>

lemma hex_digit_in_digits: "d < 16 \<Longrightarrow> hex_digit d \<in> set ''0123456789abcdef''"
  unfolding hex_digit_def by (rule nth_mem) simp

lemma char_to_int_unsigned: "0 \<le> char_to_int False c \<and> char_to_int False c < 256"
proof -
  have "(of_char c :: nat) < 256" by (rule nat_of_char_less_256)
  then show ?thesis by (simp add: char_to_int_def)
qed

lemma put_hex_unsigned:
  "length (put_hex (char_to_int False c)) = 2 \<and>
   set (put_hex (char_to_int False c)) \<subseteq> set ''0123456789abcdef''"
proof -
  let ?i = "char_to_int False c"
  have b: "0 \<le> ?i" "?i < 256" using char_to_int_unsigned by auto
  have e: "put_hex ?i = [hex_digit (nat ?i div 16), hex_digit (nat ?i mod 16)]"
    by (rule put_hex_byte [OF b])
  have "nat ?i div 16 < 16" using b by (simp add: less_mult_imp_div_less)
  then have "hex_digit (nat ?i div 16) \<in> set ''0123456789abcdef''"
    by (rule hex_digit_in_digits)
  moreover have "hex_digit (nat ?i mod 16) \<in> set ''0123456789abcdef''"
    by (rule hex_digit_in_digits) simp
  ultimately show ?thesis unfolding e by simp
qed

lemma length_6_cases:
  assumes "length v = 6"
  obtains a b c d e f where "v = [a, b, c, d, e, f]"
proof -
  from assms obtain a v1 where 1: "v = a # v1" "length v1 = 5" by (cases v) auto
  then obtain b v2 where 2: "v1 = b # v2" "length v2 = 4" by (cases v1) auto
  then obtain c v3 where 3: "v2 = c # v3" "length v3 = 3" by (cases v2) auto
  then obtain d v4 where 4: "v3 = d # v4" "length v4 = 2" by (cases v3) auto
  then obtain e v5 where 5: "v4 = e # v5" "length v5 = 1" by (cases v4) auto
  then obtain f where 6: "v5 = [f]" by (cases v5) auto
  show ?thesis using that 1 2 3 4 5 6 by simp
qed

text \<open>
  Where plain \<^verbatim>\<open>char\<close> is unsigned, every six bytes are written as six pairs of
  lower-case hexadecimal digits joined by colons, 17 characters in all.
\<close>

lemma mac_string_unsigned:
  assumes "length v = 6"
  shows "length (mac_string False v) = 17 \<and>
         (\<forall>k < 6. take 2 (drop (3 * k) (mac_string False v)) = put_hex (char_to_int False (v ! k)) \<and>
                   set (put_hex (char_to_int False (v ! k))) \<subseteq> set ''0123456789abcdef'') \<and>
         (\<forall>k < 5. mac_string False v ! (3 * k + 2) = CHR '':'')"
proof -
  obtain a b c d e f where v: "v = [a, b, c, d, e, f]"
    using assms by (rule length_6_cases)
  have two: "\<And>x. \<exists>h l. put_hex (char_to_int False x) = [h, l]"
  proof -
    fix x
    have "length (put_hex (char_to_int False x)) = 2" using put_hex_unsigned by simp
    then show "\<exists>h l. put_hex (char_to_int False x) = [h, l]"
      by (cases "put_hex (char_to_int False x)") (auto simp: length_Suc_conv)
  qed
  obtain a1 a2 where a: "put_hex (char_to_int False a) = [a1, a2]" using two by blast
  obtain b1 b2 where b: "put_hex (char_to_int False b) = [b1, b2]" using two by blast
  obtain c1 c2 where c: "put_hex (char_to_int False c) = [c1, c2]" using two by blast
  obtain d1 d2 where d: "put_hex (char_to_int False d) = [d1, d2]" using two by blast
  obtain e1 e2 where e: "put_hex (char_to_int False e) = [e1, e2]" using two by blast
  obtain f1 f2 where f: "put_hex (char_to_int False f) = [f1, f2]" using two by blast
  have m: "mac_string False v =
             [a1, a2, CHR '':'', b1, b2, CHR '':'', c1, c2, CHR '':'', d1, d2, CHR '':'',
              e1, e2, CHR '':'', f1, f2]"
    by (simp add: v mac_string_6 a b c d e f)
  have k6: "\<And>k::nat. k < 6 \<Longrightarrow> k = 0 \<or> k = 1 \<or> k = 2 \<or> k = 3 \<or> k = 4 \<or> k = 5" by arith
  have k5: "\<And>k::nat. k < 5 \<Longrightarrow> k = 0 \<or> k = 1 \<or> k = 2 \<or> k = 3 \<or> k = 4" by arith
  have digits: "\<And>x. set (put_hex (char_to_int False x)) \<subseteq> set ''0123456789abcdef''"
    using put_hex_unsigned by simp
  have p1: "length (mac_string False v) = 17" by (simp add: m)
  have p2: "\<forall>k < 6. take 2 (drop (3 * k) (mac_string False v)) = put_hex (char_to_int False (v ! k))"
  proof (intro allI impI)
    fix k :: nat assume "k < 6"
    from k6 [OF this] show "take 2 (drop (3 * k) (mac_string False v)) = put_hex (char_to_int False (v ! k))"
      unfolding m by (auto simp: v a b c d e f)
  qed
  have p3: "\<forall>k < 5. mac_string False v ! (3 * k + 2) = CHR '':''"
  proof (intro allI impI)
    fix k :: nat assume "k < 5"
    from k5 [OF this] show "mac_string False v ! (3 * k + 2) = CHR '':''"
      unfolding m by auto
  qed
  show ?thesis using p1 p2 p3 digits by blast
qed

lemma mac_string_spec_example:
  "mac_string sc [CHR 0x00, CHR 0x1a, CHR 0x2b, CHR 0x3c, CHR 0x4d, CHR 0x5e] = ''00:1a:2b:3c:4d:5e''"
  by (simp add: mac_string_6 char_to_int_def put_hex_byte hex_digit_def)

lemma put_hex_neg128: "put_hex (- 128) = ''ffffff80''"
  by (simp add: put_hex_def to_hex.simps hex_digit_def)

text \<open>
  C4: the MAC formatter renders each of the six bytes as exactly two hexadecimal digits,
  joined by colons, 17 characters in all. With an unsigned plain \<^verbatim>\<open>char\<close> that is
  \<open>mac_string_unsigned\<close> above, and the example of the specification holds for either
  signedness. With a signed plain \<^verbatim>\<open>char\<close> a byte of 0x80 or more is a negative
  \<^verbatim>\<open>int\<close>, which base 16 writes as the eight digits of its 32-bit two's complement:
  the field width of 2 does not shorten it.
\<close>

theorem GetMACAddress_signed_char_high_byte:
  "fst (GetMACAddress True
          \<lparr>is_open = True, content = [CHR 0x80, CHR 0x1a, CHR 0x2b, CHR 0x3c, CHR 0x4d, CHR 0x5e],
           gpos = 0, failbit = False, eofbit = False\<rparr> 0)
     = ''ffffff80:1a:2b:3c:4d:5e''"
proof -
  have c: "char_to_int True (CHR 0x80) = - 128" by (simp add: char_to_int_def)
  have r: "\<And>x. x \<in> {CHR 0x1a, CHR 0x2b, CHR 0x3c, CHR 0x4d, CHR 0x5e} \<Longrightarrow>
             put_hex (char_to_int True x) = [hex_digit (of_char x div 16), hex_digit (of_char x mod 16)]"
    by (auto simp: char_to_int_def put_hex_byte)
  show ?thesis
    by (simp add: GetMACAddress_open fail_def mac_string_6 c put_hex_neg128 r hex_digit_def)
qed

section \<open>The record decoder\<close>

text \<open>
  C1, with the length the layout needs: on an open stream over at least 176 bytes (the
  end of the PCA part number, 160 + 16) each of the six fields is its byte range of the
  layout table. The four ASCII fields are the 16 bytes of their ranges as they are, with
  nothing trimmed; the two MAC fields are the formatter applied to the 6 bytes of theirs.
\<close>

theorem read_fields_exact_ranges:
  assumes "is_open fin" and "\<not> fail fin" and "176 \<le> length (content fin)"
  shows "fst (read_fields sc fin) =
           \<lparr>PRODUCT_PART_NUMBER = take 16 (drop 109 (content fin)),
            PRODUCT_SERIAL_NUMBER = take 16 (drop 1 (content fin)),
            PCA_PART_NUMBER = take 16 (drop 160 (content fin)),
            PCA_SERIAL_NUMBER = take 16 (drop 144 (content fin)),
            MAC0 = mac_string sc (take 6 (drop 132 (content fin))),
            MAC1 = mac_string sc (take 6 (drop 138 (content fin)))\<rparr> \<and>
         length (PRODUCT_PART_NUMBER (fst (read_fields sc fin))) = 16 \<and>
         length (PRODUCT_SERIAL_NUMBER (fst (read_fields sc fin))) = 16 \<and>
         length (PCA_PART_NUMBER (fst (read_fields sc fin))) = 16 \<and>
         length (PCA_SERIAL_NUMBER (fst (read_fields sc fin))) = 16"
  using assms by (simp add: read_fields_full)

theorem read_fields_exact_ranges_witness:
  "is_open \<lparr>is_open = True, content = replicate 176 CHR ''A'', gpos = 0, failbit = False,
            eofbit = False\<rparr> \<and>
   \<not> fail \<lparr>is_open = True, content = replicate 176 CHR ''A'', gpos = 0, failbit = False,
             eofbit = False\<rparr> \<and>
   176 \<le> length (replicate 176 CHR ''A'') \<and>
   PCA_PART_NUMBER (fst (read_fields False
       \<lparr>is_open = True, content = replicate 176 CHR ''A'', gpos = 0, failbit = False,
        eofbit = False\<rparr>)) = replicate 16 CHR ''A''"
proof -
  let ?f = "\<lparr>is_open = True, content = replicate 176 CHR ''A'', gpos = 0, failbit = False,
             eofbit = False\<rparr>"
  have h: "is_open ?f" "\<not> fail ?f" "176 \<le> length (content ?f)"
    by (simp_all add: fail_def)
  have "PCA_PART_NUMBER (fst (read_fields False ?f)) = take 16 (drop 160 (content ?f))"
    using read_fields_exact_ranges [OF h, of False] by simp
  then show ?thesis using h by simp
qed

text \<open>
  C1 as stated, for sources of at least 166 bytes, fails: on 166 bytes the PCA part
  number at 160 is a short read, after which the PCA serial number is not bytes 144 to
  159 of the source and MAC0 is not made from bytes 132 to 137, although all of these
  bytes are there.
\<close>

theorem read_fields_166_bytes_counterexample:
  "166 \<le> length (replicate 166 CHR ''A'') \<and>
   take 16 (drop 144 (replicate 166 CHR ''A'')) = ''AAAAAAAAAAAAAAAA'' \<and>
   PCA_SERIAL_NUMBER (fst (read_fields False
       \<lparr>is_open = True, content = replicate 166 CHR ''A'', gpos = 0, failbit = False,
        eofbit = False\<rparr>)) = ''Unknown'' \<and>
   MAC0 (fst (read_fields False
       \<lparr>is_open = True, content = replicate 166 CHR ''A'', gpos = 0, failbit = False,
        eofbit = False\<rparr>)) = ''00:00:00:00:00:00''"
  by (simp add: read_fields_mid fail_def unknown_def numeral_eq_Suc)


text \<open>
  C7, for what the code does: on an open stream over a source of any length the six
  extractions produce a complete record and read nothing beyond the source. Below 125
  bytes the part number is the bytes of its range that the source has, filled with NUL
  up to 16, and the five later fields are the sentinel or the all-zero address. From 125
  to 175 bytes the part number and the serial number are their ranges, the PCA part
  number is the bytes of its range that the source has, filled with NUL up to 16, and
  the three later fields are the sentinel or the all-zero address. From 176 bytes on all
  six fields are their ranges. Every byte of a filled range is the byte of the source at
  an index below its length, or NUL.
\<close>

theorem read_fields_on_any_source:
  assumes "is_open fin" and "\<not> fail fin"
  shows "let b = content fin;
             pad = (\<lambda>off n. take n (drop off b) @
                      replicate (n - length (take n (drop off b))) NUL)
         in fst (read_fields sc fin) =
              (if length b < 125 then
                 \<lparr>PRODUCT_PART_NUMBER = pad 109 16, PRODUCT_SERIAL_NUMBER = unknown,
                  PCA_PART_NUMBER = unknown, PCA_SERIAL_NUMBER = unknown,
                  MAC0 = ''00:00:00:00:00:00'', MAC1 = ''00:00:00:00:00:00''\<rparr>
               else if length b < 176 then
                 \<lparr>PRODUCT_PART_NUMBER = take 16 (drop 109 b),
                  PRODUCT_SERIAL_NUMBER = take 16 (drop 1 b),
                  PCA_PART_NUMBER = pad 160 16, PCA_SERIAL_NUMBER = unknown,
                  MAC0 = ''00:00:00:00:00:00'', MAC1 = ''00:00:00:00:00:00''\<rparr>
               else
                 \<lparr>PRODUCT_PART_NUMBER = take 16 (drop 109 b),
                  PRODUCT_SERIAL_NUMBER = take 16 (drop 1 b),
                  PCA_PART_NUMBER = take 16 (drop 160 b),
                  PCA_SERIAL_NUMBER = take 16 (drop 144 b),
                  MAC0 = mac_string sc (take 6 (drop 132 b)),
                  MAC1 = mac_string sc (take 6 (drop 138 b))\<rparr>) \<and>
            (\<forall>off n. length (pad off n) = n \<and>
               (\<forall>k < n. pad off n ! k = (if off + k < length b then b ! (off + k) else NUL)))"
proof -
  let ?b = "content fin"
  let ?pad = "\<lambda>off n. take n (drop off ?b) @ replicate (n - length (take n (drop off ?b))) NUL"
  have len: "\<And>off n. length (?pad off n) = n" by auto
  have nth: "\<And>off n k. k < n \<Longrightarrow>
               ?pad off n ! k = (if off + k < length ?b then ?b ! (off + k) else NUL)"
    by (auto simp: nth_append)
  have fields:
    "fst (read_fields sc fin) =
       (if length ?b < 125 then
          \<lparr>PRODUCT_PART_NUMBER = ?pad 109 16, PRODUCT_SERIAL_NUMBER = unknown,
           PCA_PART_NUMBER = unknown, PCA_SERIAL_NUMBER = unknown,
           MAC0 = ''00:00:00:00:00:00'', MAC1 = ''00:00:00:00:00:00''\<rparr>
        else if length ?b < 176 then
          \<lparr>PRODUCT_PART_NUMBER = take 16 (drop 109 ?b),
           PRODUCT_SERIAL_NUMBER = take 16 (drop 1 ?b),
           PCA_PART_NUMBER = ?pad 160 16, PCA_SERIAL_NUMBER = unknown,
           MAC0 = ''00:00:00:00:00:00'', MAC1 = ''00:00:00:00:00:00''\<rparr>
        else
          \<lparr>PRODUCT_PART_NUMBER = take 16 (drop 109 ?b),
           PRODUCT_SERIAL_NUMBER = take 16 (drop 1 ?b),
           PCA_PART_NUMBER = take 16 (drop 160 ?b),
           PCA_SERIAL_NUMBER = take 16 (drop 144 ?b),
           MAC0 = mac_string sc (take 6 (drop 132 ?b)),
           MAC1 = mac_string sc (take 6 (drop 138 ?b))\<rparr>)"
  proof -
    consider "length ?b < 125" | "125 \<le> length ?b" "length ?b < 176" | "176 \<le> length ?b"
      by linarith
    then show ?thesis
    proof cases
      case 1
      show ?thesis using 1 by (simp add: read_fields_short [OF assms 1])
    next
      case 2
      show ?thesis using 2 by (simp add: read_fields_mid [OF assms 2])
    next
      case 3
      show ?thesis using 3 by (simp add: read_fields_full [OF assms 3])
    qed
  qed
  show ?thesis unfolding Let_def using fields len nth by blast
qed

theorem read_fields_on_any_source_witness:
  "is_open \<lparr>is_open = True, content = replicate 112 CHR ''A'', gpos = 0, failbit = False,
            eofbit = False\<rparr> \<and>
   \<not> fail \<lparr>is_open = True, content = replicate 112 CHR ''A'', gpos = 0, failbit = False,
             eofbit = False\<rparr> \<and>
   fst (read_fields False
       \<lparr>is_open = True, content = replicate 112 CHR ''A'', gpos = 0, failbit = False,
        eofbit = False\<rparr>) =
     \<lparr>PRODUCT_PART_NUMBER = ''AAA'' @ replicate 13 NUL, PRODUCT_SERIAL_NUMBER = ''Unknown'',
      PCA_PART_NUMBER = ''Unknown'', PCA_SERIAL_NUMBER = ''Unknown'',
      MAC0 = ''00:00:00:00:00:00'', MAC1 = ''00:00:00:00:00:00''\<rparr>"
proof -
  let ?f = "\<lparr>is_open = True, content = replicate 112 CHR ''A'', gpos = 0, failbit = False,
             eofbit = False\<rparr>"
  have h: "is_open ?f" "\<not> fail ?f" by (simp_all add: fail_def)
  have l: "length (content ?f) < 125" by simp
  have "fst (read_fields False ?f) =
          \<lparr>PRODUCT_PART_NUMBER = take 16 (drop 109 (content ?f)) @
             replicate (16 - length (take 16 (drop 109 (content ?f)))) NUL,
           PRODUCT_SERIAL_NUMBER = unknown, PCA_PART_NUMBER = unknown,
           PCA_SERIAL_NUMBER = unknown,
           MAC0 = ''00:00:00:00:00:00'', MAC1 = ''00:00:00:00:00:00''\<rparr>"
    using read_fields_on_any_source [OF h, of False] l unfolding Let_def by presburger
  then show ?thesis using h by (simp add: unknown_def numeral_eq_Suc)
qed

text \<open>
  C7 as stated has every extraction read the bytes that are there into a zeroed buffer.
  After a short read the later extractions read nothing: on 150 bytes the PCA part
  number at 160 is short, and then MAC0 is the all-zero address although bytes 132 to
  137 are in the source, and the PCA serial number is the sentinel although bytes 144
  to 149 are.
\<close>

theorem read_fields_after_short_read_counterexample:
  "take 6 (drop 132 (replicate 150 CHR ''Z'')) = replicate 6 CHR ''Z'' \<and>
   mac_string False (replicate 6 CHR ''Z'') = ''5a:5a:5a:5a:5a:5a'' \<and>
   MAC0 (fst (read_fields False
       \<lparr>is_open = True, content = replicate 150 CHR ''Z'', gpos = 0, failbit = False,
        eofbit = False\<rparr>)) = ''00:00:00:00:00:00'' \<and>
   take 16 (drop 144 (replicate 150 CHR ''Z'')) = replicate 6 CHR ''Z'' \<and>
   PCA_SERIAL_NUMBER (fst (read_fields False
       \<lparr>is_open = True, content = replicate 150 CHR ''Z'', gpos = 0, failbit = False,
        eofbit = False\<rparr>)) = ''Unknown''"
proof -
  have m: "mac_string False (replicate 6 CHR ''Z'') = ''5a:5a:5a:5a:5a:5a''"
    by (simp add: replicate_6 mac_string_6 char_to_int_def put_hex_byte hex_digit_def)
  show ?thesis
    by (simp add: m read_fields_mid fail_def unknown_def)
qed

text \<open>
  C10: a short read raises failbit, and on a failed stream every later \<open>GetStr\<close> returns
  the sentinel and every later \<open>GetMACAddress\<close> returns the all-zero address, leaving the
  stream failed. In the order of extraction the part number (ending at 125) and the PCA
  part number (ending at 176) are the reads that can be short: below 125 bytes all five
  later fields are sentinels, although the serial number's bytes 1 to 16 may all be
  there; from 125 to 175 bytes the serial number is read but the PCA serial number and
  both MACs are sentinels, although their bytes are there.
\<close>

theorem failed_read_persists:
  assumes "is_open fin" and "\<not> fail fin"
  shows "(\<forall>off sz. 0 < sz \<longrightarrow>
            fail (snd (GetStr fin off sz)) = (length (content fin) < off + sz)) \<and>
         (\<forall>f off sz. fail f \<longrightarrow> GetStr f off sz = (unknown, f)) \<and>
         (\<forall>f off. fail f \<longrightarrow> GetMACAddress sc f off = (''00:00:00:00:00:00'', f)) \<and>
         (length (content fin) < 125 \<longrightarrow>
            PRODUCT_SERIAL_NUMBER (fst (read_fields sc fin)) = unknown \<and>
            PCA_PART_NUMBER (fst (read_fields sc fin)) = unknown \<and>
            PCA_SERIAL_NUMBER (fst (read_fields sc fin)) = unknown \<and>
            MAC0 (fst (read_fields sc fin)) = ''00:00:00:00:00:00'' \<and>
            MAC1 (fst (read_fields sc fin)) = ''00:00:00:00:00:00'') \<and>
         (125 \<le> length (content fin) \<and> length (content fin) < 176 \<longrightarrow>
            PRODUCT_SERIAL_NUMBER (fst (read_fields sc fin)) = take 16 (drop 1 (content fin)) \<and>
            PCA_SERIAL_NUMBER (fst (read_fields sc fin)) = unknown \<and>
            MAC0 (fst (read_fields sc fin)) = ''00:00:00:00:00:00'' \<and>
            MAC1 (fst (read_fields sc fin)) = ''00:00:00:00:00:00'')"
proof -
  have a: "\<forall>off sz. 0 < sz \<longrightarrow>
             fail (snd (GetStr fin off sz)) = (length (content fin) < off + sz)"
    by (simp add: GetStr_snd [OF assms] fail_def)
  have b: "\<forall>f off sz. fail f \<longrightarrow> GetStr f off sz = (unknown, f)"
    by (simp add: GetStr_failed)
  have c: "\<forall>f off. fail f \<longrightarrow> GetMACAddress sc f off = (''00:00:00:00:00:00'', f)"
    by (simp add: GetMACAddress_failed)
  have d: "length (content fin) < 125 \<longrightarrow>
            PRODUCT_SERIAL_NUMBER (fst (read_fields sc fin)) = unknown \<and>
            PCA_PART_NUMBER (fst (read_fields sc fin)) = unknown \<and>
            PCA_SERIAL_NUMBER (fst (read_fields sc fin)) = unknown \<and>
            MAC0 (fst (read_fields sc fin)) = ''00:00:00:00:00:00'' \<and>
            MAC1 (fst (read_fields sc fin)) = ''00:00:00:00:00:00''"
    by (simp add: read_fields_short [OF assms])
  have e: "125 \<le> length (content fin) \<and> length (content fin) < 176 \<longrightarrow>
            PRODUCT_SERIAL_NUMBER (fst (read_fields sc fin)) = take 16 (drop 1 (content fin)) \<and>
            PCA_SERIAL_NUMBER (fst (read_fields sc fin)) = unknown \<and>
            MAC0 (fst (read_fields sc fin)) = ''00:00:00:00:00:00'' \<and>
            MAC1 (fst (read_fields sc fin)) = ''00:00:00:00:00:00''"
    by (simp add: read_fields_mid [OF assms])
  show ?thesis using a b c d e by blast
qed

theorem failed_read_persists_witness:
  "take 16 (drop 1 (replicate 100 CHR ''S'')) = replicate 16 CHR ''S'' \<and>
   PRODUCT_SERIAL_NUMBER (fst (read_fields False
       \<lparr>is_open = True, content = replicate 100 CHR ''S'', gpos = 0, failbit = False,
        eofbit = False\<rparr>)) = ''Unknown'' \<and>
   MAC1 (fst (read_fields False
       \<lparr>is_open = True, content = replicate 100 CHR ''S'', gpos = 0, failbit = False,
        eofbit = False\<rparr>)) = ''00:00:00:00:00:00''"
proof -
  let ?f = "\<lparr>is_open = True, content = replicate 100 CHR ''S'', gpos = 0, failbit = False,
             eofbit = False\<rparr>"
  have h: "is_open ?f" "\<not> fail ?f" by (simp_all add: fail_def)
  have "length (content ?f) < 125" by simp
  then have "PRODUCT_SERIAL_NUMBER (fst (read_fields False ?f)) = unknown \<and>
             MAC1 (fst (read_fields False ?f)) = ''00:00:00:00:00:00''"
    using failed_read_persists [OF h, of False] by blast
  then show ?thesis by (simp add: unknown_def)
qed

section \<open>The server identifier\<close>

lemma open_server_id_None:
  "fs server_id_path = None \<Longrightarrow> fail (open_file ifstream_new fs server_id_path)"
  by (simp add: open_file_def ifstream_new_def fail_def)

lemma open_new_Some:
  "fs p = Some b \<Longrightarrow>
   open_file ifstream_new fs p =
     \<lparr>is_open = True, content = b, gpos = 0, failbit = False, eofbit = False\<rparr>"
  by (simp add: open_file_def ifstream_new_def)

lemma GetServerId_opened:
  "fs server_id_path = Some b \<Longrightarrow> GetServerId fs = takeWhile (\<lambda>c. c \<noteq> CHR 0x0A) b"
  by (simp add: GetServerId_def open_new_Some fail_def getline_def good_def Let_def)

text \<open>
  C6, for what the code does: \<open>GetServerId\<close> reads one line from the fixed path. When the
  file cannot be opened the result is the sentinel. When it opens, the result is the
  bytes before the first newline (all bytes when there is none) and holds no newline; a
  first line SN123 gives SN123.
\<close>

theorem GetServerId_result:
  "(fs server_id_path = None \<longrightarrow> GetServerId fs = unknown) \<and>
   (\<forall>b. fs server_id_path = Some b \<longrightarrow>
      GetServerId fs = takeWhile (\<lambda>c. c \<noteq> CHR 0x0A) b \<and>
      CHR 0x0A \<notin> set (GetServerId fs)) \<and>
   (\<forall>rest. fs server_id_path = Some (''SN123'' @ CHR 0x0A # rest) \<longrightarrow>
      GetServerId fs = ''SN123'')"
proof -
  have a: "fs server_id_path = None \<longrightarrow> GetServerId fs = unknown"
    using open_server_id_None [of fs] by (simp add: GetServerId_def)
  have b: "\<forall>b. fs server_id_path = Some b \<longrightarrow>
      GetServerId fs = takeWhile (\<lambda>c. c \<noteq> CHR 0x0A) b \<and>
      CHR 0x0A \<notin> set (GetServerId fs)"
  proof (intro allI impI)
    fix b assume h: "fs server_id_path = Some b"
    have "CHR 0x0A \<notin> set (takeWhile (\<lambda>c. c \<noteq> CHR 0x0A) b)"
      using set_takeWhileD by fastforce
    then show "GetServerId fs = takeWhile (\<lambda>c. c \<noteq> CHR 0x0A) b \<and>
      CHR 0x0A \<notin> set (GetServerId fs)"
      by (simp add: GetServerId_opened [of fs b, OF h])
  qed
  have c: "\<forall>rest. fs server_id_path = Some (''SN123'' @ CHR 0x0A # rest) \<longrightarrow>
      GetServerId fs = ''SN123''"
    by (simp add: GetServerId_opened)
  show ?thesis using a b c by blast
qed

theorem GetServerId_result_witness:
  "GetServerId (map_of [(server_id_path, ''SN123'' @ [CHR 0x0A])]) = ''SN123'' \<and>
   GetServerId (map_of []) = ''Unknown''"
proof -
  have "map_of [(server_id_path, ''SN123'' @ [CHR 0x0A])] server_id_path
          = Some (''SN123'' @ CHR 0x0A # [])" by simp
  then have 1: "GetServerId (map_of [(server_id_path, ''SN123'' @ [CHR 0x0A])]) = ''SN123''"
    using GetServerId_result [of "map_of [(server_id_path, ''SN123'' @ [CHR 0x0A])]"] by blast
  have "(map_of [] :: filesystem) server_id_path = None" by simp
  then have 2: "GetServerId (map_of []) = unknown"
    using GetServerId_result [of "map_of []"] by blast
  show ?thesis using 1 2 by (simp add: unknown_def)
qed

text \<open>
  C6 as stated also promises the sentinel when the read fails. The result of
  \<^verbatim>\<open>getline\<close> is not checked: on a file that opens and has nothing to read,
  \<^verbatim>\<open>getline\<close> fails and the result is the empty string.
\<close>

theorem GetServerId_unreadable_counterexample:
  "is_open (open_file ifstream_new (map_of [(server_id_path, [])]) server_id_path) \<and>
   fail (snd (getline (open_file ifstream_new (map_of [(server_id_path, [])]) server_id_path) [])) \<and>
   GetServerId (map_of [(server_id_path, [])]) = [] \<and>
   GetServerId (map_of [(server_id_path, [])]) \<noteq> ''Unknown''"
  by (simp add: GetServerId_def open_file_def ifstream_new_def fail_def getline_def good_def)

section \<open>The object server, step by step\<close>

lemma map_update_other:
  "list_all (\<lambda>e. fst e \<noteq> p) base \<Longrightarrow>
   map (\<lambda>e. if fst e = p then (fst e, f (snd e)) else e) base = base"
  by (induction base) simp_all

lemma map_update_last:
  "list_all (\<lambda>e. fst e \<noteq> p) base \<Longrightarrow>
   map (\<lambda>e. if fst e = p then (fst e, f (snd e)) else e) (base @ [(p, obj)]) = base @ [(p, f obj)]"
  using map_update_other [of p base f] by simp

lemma update_iface_last:
  assumes "list_all (\<lambda>e. fst e \<noteq> p) base"
  shows "update_iface \<lparr>interfaces = base @ [(p, obj)], next_ptr = n\<rparr> p f =
           \<lparr>interfaces = base @ [(p, f obj)], next_ptr = n\<rparr>"
  by (simp add: update_iface_def map_update_other [OF assms])

lemma register_property_last:
  assumes "list_all (\<lambda>e. fst e \<noteq> p) base"
  shows "register_property \<lparr>interfaces = base @ [(p, obj)], next_ptr = n\<rparr> p name v =
           \<lparr>interfaces = base @
              [(p, if initialized obj \<or> map_of (properties obj) name \<noteq> None then obj
                   else obj\<lparr>properties := properties obj @ [(name, v)]\<rparr>)],
            next_ptr = n\<rparr>"
  by (simp add: register_property_def update_iface_last [OF assms])

lemma initialize_last:
  assumes "list_all (\<lambda>e. fst e \<noteq> p) base"
  shows "initialize \<lparr>interfaces = base @ [(p, obj)], next_ptr = n\<rparr> p =
           \<lparr>interfaces = base @ [(p, obj\<lparr>initialized := True\<rparr>)], next_ptr = n\<rparr>"
  by (simp add: initialize_def update_iface_last [OF assms])

lemma add_interface_eq:
  "add_interface srv path name =
     (next_ptr srv,
      \<lparr>interfaces = interfaces srv @
          [(next_ptr srv, \<lparr>obj_path = path, iface_name = name, properties = [], methods = [],
                           initialized = False\<rparr>)],
       next_ptr = Suc (next_ptr srv)\<rparr>)"
  by (simp add: add_interface_def)

lemma fresh_ptrs_neq: "fresh_ptrs srv \<Longrightarrow> list_all (\<lambda>e. fst e \<noteq> next_ptr srv) (interfaces srv)"
  by (auto simp: fresh_ptrs_def list_all_iff)

lemma open_new_opened:
  "fs p = Some b \<Longrightarrow> open_file ifstream_new fs p = opened b"
  by (simp add: open_file_def ifstream_new_def opened_def)

lemma open_closed_None:
  "\<not> is_open fin \<Longrightarrow> fs p = None \<Longrightarrow> open_file fin fs p = fin\<lparr>failbit := True\<rparr>"
  by (simp add: open_file_def)

lemma open_closed_Some:
  "\<not> is_open fin \<Longrightarrow> fs p = Some b \<Longrightarrow> open_file fin fs p = opened b"
  by (simp add: open_file_def opened_def)

section \<open>The loop over the candidates\<close>

lemma eeprom_loop_skip:
  assumes "\<not> is_open fin" "fs e = None"
  shows "eeprom_loop sc fs (e # rest) fin srv p = eeprom_loop sc fs rest (fin\<lparr>failbit := True\<rparr>) srv p"
  using assms by (simp add: open_closed_None)

lemma eeprom_loop_none:
  "\<not> is_open fin \<Longrightarrow> list_all (\<lambda>e. fs e = None) es \<Longrightarrow>
   fst (eeprom_loop sc fs es fin srv p) = srv"
proof (induction es arbitrary: fin)
  case Nil
  then show ?case by simp
next
  case (Cons e es)
  then have "fs e = None" "list_all (\<lambda>e. fs e = None) es" by simp_all
  then show ?case using Cons.IH [of "fin\<lparr>failbit := True\<rparr>"] Cons.prems(1)
    by (simp add: open_closed_None)
qed

lemma eeprom_loop_open:
  assumes "\<not> is_open fin" "fs e = Some b"
  shows "fst (eeprom_loop sc fs (e # rest) fin srv p) =
           (let r = fst (read_fields sc (opened b)) in
            register_property (register_property (register_property (register_property
              (register_property (register_property srv p ''PRODUCT_PART_NUMBER'' (PRODUCT_PART_NUMBER r))
                 p ''PRODUCT_SERIAL_NUMBER'' (PRODUCT_SERIAL_NUMBER r))
                 p ''PCA_PART_NUMBER'' (PCA_PART_NUMBER r))
                 p ''PCA_SERIAL_NUMBER'' (PCA_SERIAL_NUMBER r))
                 p ''MAC0'' (MAC0 r))
                 p ''MAC1'' (MAC1 r))"
proof -
  have o: "open_file fin fs e = opened b" using assms by (rule open_closed_Some)
  have i: "is_open (opened b)" by (simp add: opened_def)
  show ?thesis
    by (simp add: o i read_fields_def split_def Let_def)
qed

lemma eeprom_loop_open_stream:
  assumes "\<not> is_open fin" "fs e = Some b"
  shows "snd (eeprom_loop sc fs (e # rest) fin srv p) = close_file (snd (read_fields sc (opened b)))"
proof -
  have o: "open_file fin fs e = opened b" using assms by (rule open_closed_Some)
  have i: "is_open (opened b)" by (simp add: opened_def)
  show ?thesis
    by (simp add: o i read_fields_def split_def Let_def)
qed


lemma eeprom_loop_first_open:
  "\<not> is_open fin \<Longrightarrow> list_all (\<lambda>e. fs e = None) pre \<Longrightarrow> fs e = Some b \<Longrightarrow>
   eeprom_loop sc fs (pre @ e # rest) fin srv p = eeprom_loop sc fs (e # rest) ifstream_new srv p"
proof (induction pre arbitrary: fin)
  case Nil
  then show ?case by (simp add: open_closed_Some open_new_opened)
next
  case (Cons a pre)
  then have a: "fs a = None" and r: "list_all (\<lambda>e. fs e = None) pre" by simp_all
  have "eeprom_loop sc fs ((a # pre) @ e # rest) fin srv p =
          eeprom_loop sc fs (pre @ e # rest) (fin\<lparr>failbit := True\<rparr>) srv p"
    using eeprom_loop_skip [where fs = fs and e = a, OF Cons.prems(1) a] by simp
  also have "\<dots> = eeprom_loop sc fs (e # rest) ifstream_new srv p"
    using Cons.IH [of "fin\<lparr>failbit := True\<rparr>"] Cons.prems(1) r Cons.prems(3) by simp
  finally show ?case .
qed

lemma eeproms_split:
  assumes "i < length eeproms" "\<forall>j<i. fs (eeproms ! j) = None"
  shows "eeproms = take i eeproms @ eeproms ! i # drop (Suc i) eeproms"
    and "list_all (\<lambda>e. fs e = None) (take i eeproms)"
proof -
  show "eeproms = take i eeproms @ eeproms ! i # drop (Suc i) eeproms"
    using assms(1) by (rule id_take_nth_drop)
  show "list_all (\<lambda>e. fs e = None) (take i eeproms)"
    unfolding list_all_length using assms by simp
qed

lemma eeprom_loop_candidate:
  assumes "i < length eeproms" "\<forall>j<i. fs (eeproms ! j) = None" "fs (eeproms ! i) = Some b"
  shows "eeprom_loop sc fs eeproms ifstream_new srv p =
           eeprom_loop sc fs (eeproms ! i # drop (Suc i) eeproms) ifstream_new srv p"
proof -
  have n: "\<not> is_open ifstream_new" by (simp add: ifstream_new_def)
  have "eeprom_loop sc fs (take i eeproms @ eeproms ! i # drop (Suc i) eeproms) ifstream_new srv p =
          eeprom_loop sc fs (eeproms ! i # drop (Suc i) eeproms) ifstream_new srv p"
    by (rule eeprom_loop_first_open [where fs = fs and e = "eeproms ! i", OF n eeproms_split(2) [OF assms(1,2)] assms(3)])
  then show ?thesis using eeproms_split(1) [OF assms(1,2)] by simp
qed

lemma not_open_new: "\<not> is_open ifstream_new"
  by (simp add: ifstream_new_def)

lemma read_fields_stays_open:
  "is_open (snd (read_fields sc (opened b)))"
proof -
  have o: "is_open (opened b)" "\<not> fail (opened b)" by (simp_all add: opened_def fail_def)
  have g: "\<And>f off sz. is_open f \<Longrightarrow> 0 < sz \<Longrightarrow> is_open (snd (GetStr f off sz))"
    by (simp add: GetStr_def seekg_def read_def Let_def)
  have m: "\<And>f off. is_open f \<Longrightarrow> is_open (snd (GetMACAddress sc f off))"
    by (simp add: GetMACAddress_def seekg_def read_def Let_def split_def)
  show ?thesis
    by (simp add: read_fields_def split_def Let_def layout_defs g m o)
qed

lemma AddFRU_open:
  assumes "fresh_ptrs srv" and "i < length eeproms"
    and "\<forall>j<i. fs (eeproms ! j) = None" and "fs (eeproms ! i) = Some b"
  shows "AddFRUObjectToDbus sc fs srv =
           (\<lparr>interfaces = interfaces srv @
               [(next_ptr srv,
                 fru_object fs
                   [(''PRODUCT_PART_NUMBER'', PRODUCT_PART_NUMBER (fst (read_fields sc (opened b)))),
                    (''PRODUCT_SERIAL_NUMBER'', PRODUCT_SERIAL_NUMBER (fst (read_fields sc (opened b)))),
                    (''PCA_PART_NUMBER'', PCA_PART_NUMBER (fst (read_fields sc (opened b)))),
                    (''PCA_SERIAL_NUMBER'', PCA_SERIAL_NUMBER (fst (read_fields sc (opened b)))),
                    (''MAC0'', MAC0 (fst (read_fields sc (opened b)))),
                    (''MAC1'', MAC1 (fst (read_fields sc (opened b))))])],
             next_ptr = Suc (next_ptr srv)\<rparr>, next_ptr srv)"
proof -
  note f = fresh_ptrs_neq [OF assms(1)]
  have l: "\<And>s p. fst (eeprom_loop sc fs eeproms ifstream_new s p) =
             fst (eeprom_loop sc fs (eeproms ! i # drop (Suc i) eeproms) ifstream_new s p)"
    by (simp add: eeprom_loop_candidate [OF assms(2,3,4)])
  show ?thesis
    unfolding AddFRUObjectToDbus_def add_interface_eq split_def Let_def fst_conv snd_conv l
      eeprom_loop_open [where fs = fs and e = "eeproms ! i", OF not_open_new assms(4)]
    by (simp add: register_property_last [OF f] initialize_last [OF f] fru_object_def)
qed

lemma eeprom_loop_closes:
  assumes "i < length eeproms" and "\<forall>j<i. fs (eeproms ! j) = None"
    and "fs (eeproms ! i) = Some b"
  shows "\<not> is_open (snd (eeprom_loop sc fs eeproms ifstream_new srv p))"
proof -
  have "snd (eeprom_loop sc fs eeproms ifstream_new srv p) =
          close_file (snd (read_fields sc (opened b)))"
    unfolding eeprom_loop_candidate [OF assms]
    by (rule eeprom_loop_open_stream [where fs = fs and e = "eeproms ! i", OF not_open_new assms(3)])
  then show ?thesis
    using read_fields_stays_open [of sc b] by (simp add: close_file_def)
qed

lemma AddFRU_none:
  assumes "fresh_ptrs srv" and "list_all (\<lambda>e. fs e = None) eeproms"
  shows "AddFRUObjectToDbus sc fs srv =
           (\<lparr>interfaces = interfaces srv @ [(next_ptr srv, fru_object fs [])],
             next_ptr = Suc (next_ptr srv)\<rparr>, next_ptr srv)"
proof -
  note f = fresh_ptrs_neq [OF assms(1)]
  have l: "\<And>s p. fst (eeprom_loop sc fs eeproms ifstream_new s p) = s"
    by (rule eeprom_loop_none [where fs = fs, OF not_open_new assms(2)])
  show ?thesis
    unfolding AddFRUObjectToDbus_def add_interface_eq split_def Let_def fst_conv snd_conv l
    by (simp add: register_property_last [OF f] initialize_last [OF f] fru_object_def)
qed

lemma first_openable:
  assumes "\<not> list_all (\<lambda>e. fs e = None) es"
  shows "\<exists>i b. i < length es \<and> (\<forall>j<i. fs (es ! j) = None) \<and> fs (es ! i) = Some b"
proof -
  let ?Q = "\<lambda>i. i < length es \<and> fs (es ! i) \<noteq> None"
  from assms have "\<exists>i. ?Q i" by (auto simp: list_all_length)
  then obtain i where i: "?Q i" and least: "\<forall>j<i. \<not> ?Q j"
    using exists_least_iff [of ?Q] by blast
  from i obtain b where "fs (es ! i) = Some b" by auto
  moreover have "\<forall>j<i. fs (es ! j) = None" using least i by auto
  ultimately show ?thesis using i by blast
qed

lemma AddFRU_shape:
  assumes "fresh_ptrs srv"
  shows "\<exists>props. AddFRUObjectToDbus sc fs srv =
           (\<lparr>interfaces = interfaces srv @ [(next_ptr srv, fru_object fs props)],
             next_ptr = Suc (next_ptr srv)\<rparr>, next_ptr srv)"
proof (cases "list_all (\<lambda>e. fs e = None) eeproms")
  case True
  then show ?thesis using AddFRU_none [OF assms] by blast
next
  case False
  then obtain i b where "i < length eeproms" "\<forall>j<i. fs (eeproms ! j) = None"
      "fs (eeproms ! i) = Some b"
    using first_openable [of fs eeproms] by blast
  then show ?thesis using AddFRU_open [OF assms, of i fs b sc] by blast
qed


lemma eeprom_loop_preserves:
  assumes step: "\<And>s name v. P s \<Longrightarrow> P (register_property s p name v)" and "P srv"
  shows "P (fst (eeprom_loop sc fs es fin srv p))"
proof (induction es arbitrary: fin)
  case Nil
  show ?case using assms(2) by simp
next
  case (Cons e es)
  show ?case
  proof (cases "is_open (open_file fin fs e)")
    case True
    then show ?thesis
      by (simp add: split_def Let_def step assms(2))
  next
    case False
    then show ?thesis using Cons.IH by simp
  qed
qed

lemma eeprom_loop_trace_preserves:
  assumes step: "\<And>s name v. P s \<Longrightarrow> P (register_property s p name v)" and "P srv"
  shows "\<forall>s \<in> set (eeprom_loop_trace sc fs es fin srv p). P s"
proof (induction es arbitrary: fin)
  case Nil
  show ?case by simp
next
  case (Cons e es)
  show ?case
  proof (cases "is_open (open_file fin fs e)")
    case True
    then show ?thesis
      by (simp add: split_def Let_def step assms(2))
  next
    case False
    then show ?thesis using Cons.IH by simp
  qed
qed

lemma AddFRU_trace_shape:
  assumes "fresh_ptrs srv"
  shows "\<forall>s \<in> set (AddFRUObjectToDbus_trace sc fs srv).
           \<exists>obj. s = \<lparr>interfaces = interfaces srv @ [(next_ptr srv, obj)],
                       next_ptr = Suc (next_ptr srv)\<rparr> \<and> obj_path obj = productName"
proof -
  note f = fresh_ptrs_neq [OF assms]
  define P where "P = (\<lambda>s. \<exists>obj. s = \<lparr>interfaces = interfaces srv @ [(next_ptr srv, obj)],
                       next_ptr = Suc (next_ptr srv)\<rparr> \<and> obj_path obj = productName)"
  have step: "\<And>s name v. P s \<Longrightarrow> P (register_property s (next_ptr srv) name v)"
    unfolding P_def by (auto simp: register_property_last [OF f])
  have init: "\<And>s. P s \<Longrightarrow> P (initialize s (next_ptr srv))"
    unfolding P_def by (auto simp: initialize_last [OF f])
  let ?s1 = "snd (add_interface srv productName ''xyz.openbmc_project.FruDevice'')"
  let ?s2 = "register_property ?s1 (next_ptr srv) ''SERVER_ID'' (GetServerId fs)"
  let ?s3 = "register_property ?s2 (next_ptr srv) ''PRODUCT_MANUFACTURER'' GetManufactuer"
  have p1: "P ?s1" unfolding P_def by (simp add: add_interface_eq)
  have p2: "P ?s2" using p1 by (rule step)
  have p3: "P ?s3" using p2 by (rule step)
  have p4: "P (fst (eeprom_loop sc fs eeproms ifstream_new ?s3 (next_ptr srv)))"
    using step p3 by (rule eeprom_loop_preserves)
  have p5: "P (initialize (fst (eeprom_loop sc fs eeproms ifstream_new ?s3 (next_ptr srv))) (next_ptr srv))"
    using p4 by (rule init)
  have pt: "\<forall>s \<in> set (eeprom_loop_trace sc fs eeproms ifstream_new ?s3 (next_ptr srv)). P s"
    using step p3 by (rule eeprom_loop_trace_preserves)
  have n: "fst (add_interface srv productName ''xyz.openbmc_project.FruDevice'') = next_ptr srv"
    by (simp add: add_interface_def)
  have "\<forall>s \<in> set (AddFRUObjectToDbus_trace sc fs srv). P s"
    unfolding AddFRUObjectToDbus_trace_def split_def Let_def n
    using p1 p2 p3 p5 pt by simp
  then show ?thesis unfolding P_def .
qed

lemma AddFRU_trace_last:
  "last (AddFRUObjectToDbus_trace sc fs srv) = fst (AddFRUObjectToDbus sc fs srv)"
  by (simp add: AddFRUObjectToDbus_trace_def AddFRUObjectToDbus_def split_def Let_def)

lemma AddFRU_trace_nonempty: "AddFRUObjectToDbus_trace sc fs srv \<noteq> []"
  by (simp add: AddFRUObjectToDbus_trace_def split_def Let_def)

lemma rescanBus_trace_last:
  "last (rescanBus_trace sc fs srv iface) = fst (rescanBus sc fs srv iface)"
  by (cases iface)
     (simp_all add: rescanBus_trace_def rescanBus_def split_def Let_def AddFRU_trace_last
        AddFRU_trace_nonempty)

section \<open>States between calls\<close>

lemma paths_differ: "managerPath \<noteq> productName"
  by (simp add: managerPath_def productName_def)


lemma manager_object_path: "obj_path manager_object = managerPath"
  by (simp add: manager_object_def)


lemma main_init_eq:
  "main_init = \<lparr>objServer = \<lparr>interfaces = [(0, manager_object)], next_ptr = 1\<rparr>,
                ifaceFruDevice = None, ifaceFruDeviceManager = Some 0\<rparr>"
  by (simp add: main_init_def add_interface_def object_server_new_def register_method_def
      initialize_def update_iface_def manager_object_def)


lemma settled_main_init: "settled main_init"
  by (simp add: main_init_eq settled_def)


text \<open>The object server of a settled state once the old FRU interface, if any, is removed.\<close>


lemma settled_removed:
  assumes "settled st"
  shows "(case ifaceFruDevice st of None \<Rightarrow> objServer st
          | Some p \<Rightarrow> remove_interface (objServer st) p) =
           \<lparr>interfaces = [(0, manager_object)], next_ptr = next_ptr (objServer st)\<rparr>"
proof (cases "ifaceFruDevice st")
  case None
  then show ?thesis using assms by (simp add: settled_def)
next
  case (Some p)
  then show ?thesis using assms by (auto simp: settled_def remove_interface_def)
qed


lemma fresh_manager_only: "0 < n \<Longrightarrow> fresh_ptrs \<lparr>interfaces = [(0, manager_object)], next_ptr = n\<rparr>"
  by (simp add: fresh_ptrs_def)


lemma rescanBus_settled:
  assumes "settled st"
  shows "\<exists>props. rescanBus sc fs (objServer st) (ifaceFruDevice st) =
           (\<lparr>interfaces = [(0, manager_object), (next_ptr (objServer st), fru_object fs props)],
             next_ptr = Suc (next_ptr (objServer st))\<rparr>, Some (next_ptr (objServer st)))"
proof -
  let ?r = "\<lparr>interfaces = [(0, manager_object)], next_ptr = next_ptr (objServer st)\<rparr>"
  have n: "0 < next_ptr (objServer st)" using assms by (simp add: settled_def)
  obtain props where
    "AddFRUObjectToDbus sc fs ?r =
       (\<lparr>interfaces = interfaces ?r @ [(next_ptr ?r, fru_object fs props)],
         next_ptr = Suc (next_ptr ?r)\<rparr>, next_ptr ?r)"
    using AddFRU_shape [OF fresh_manager_only [OF n], of sc fs] by blast
  then have "rescanBus sc fs (objServer st) (ifaceFruDevice st) =
           (\<lparr>interfaces = [(0, manager_object), (next_ptr (objServer st), fru_object fs props)],
             next_ptr = Suc (next_ptr (objServer st))\<rparr>, Some (next_ptr (objServer st)))"
    unfolding rescanBus_def settled_removed [OF assms] by simp
  then show ?thesis by blast
qed


lemma settled_ReScan:
  assumes "settled st"
  shows "settled (ReScan sc fs st)"
proof -
  obtain props where
    r: "rescanBus sc fs (objServer st) (ifaceFruDevice st) =
           (\<lparr>interfaces = [(0, manager_object), (next_ptr (objServer st), fru_object fs props)],
             next_ptr = Suc (next_ptr (objServer st))\<rparr>, Some (next_ptr (objServer st)))"
    using rescanBus_settled [OF assms] by blast
  have "ifaceFruDeviceManager st = Some 0" "0 < next_ptr (objServer st)"
    using assms by (simp_all add: settled_def)
  then show ?thesis
    by (simp add: ReScan_def r settled_def fru_object_def)
qed


lemma settled_io_run: "settled st \<Longrightarrow> settled (io_run sc fss st)"
  by (induction fss arbitrary: st) (simp_all add: settled_ReScan)


lemma io_run_snoc: "io_run sc (fss @ [fs]) st = ReScan sc fs (io_run sc fss st)"
  by (induction fss arbitrary: st) simp_all


lemma ReScan_published: "ifaceFruDevice (ReScan sc fs st) \<noteq> None"
  by (simp add: ReScan_def rescanBus_def split_def Let_def)


lemma io_run_published: "(ifaceFruDevice (io_run sc fss main_init) = None) = (fss = [])"
proof (cases fss rule: rev_cases)
  case Nil
  then show ?thesis by (simp add: main_init_eq)
next
  case (snoc fss' fs)
  then show ?thesis using ReScan_published by (simp add: io_run_snoc)
qed


lemma objects_at_settled:
  assumes "settled st"
  shows "objects_at (objServer st) managerPath = [(0, manager_object)]"
    and "map_of (interfaces (objServer st)) 0 = Some manager_object"
    and "ifaceFruDevice st = None \<Longrightarrow> objects_at (objServer st) productName = []"
    and "ifaceFruDevice st = Some p \<Longrightarrow>
           \<exists>obj. objects_at (objServer st) productName = [(p, obj)] \<and> initialized obj"
  using assms paths_differ
  by (auto simp: settled_def objects_at_def manager_object_path split: option.splits)


lemma rescanBus_trace_settled:
  assumes "settled st"
  shows "\<forall>s \<in> set (rescanBus_trace sc fs (objServer st) (ifaceFruDevice st)).
           interfaces s = [(0, manager_object)] \<or>
           (\<exists>q obj. interfaces s = [(0, manager_object), (q, obj)] \<and> obj_path obj = productName)"
proof -
  let ?r = "\<lparr>interfaces = [(0, manager_object)], next_ptr = next_ptr (objServer st)\<rparr>"
  have n: "0 < next_ptr (objServer st)" using assms by (simp add: settled_def)
  have t: "\<forall>s \<in> set (AddFRUObjectToDbus_trace sc fs ?r).
           \<exists>obj. s = \<lparr>interfaces = interfaces ?r @ [(next_ptr ?r, obj)],
                       next_ptr = Suc (next_ptr ?r)\<rparr> \<and> obj_path obj = productName"
    by (rule AddFRU_trace_shape [OF fresh_manager_only [OF n]])
  have t': "\<forall>s \<in> set (AddFRUObjectToDbus_trace sc fs ?r).
           \<exists>q obj. interfaces s = [(0, manager_object), (q, obj)] \<and> obj_path obj = productName"
  proof
    fix s assume "s \<in> set (AddFRUObjectToDbus_trace sc fs ?r)"
    then obtain obj where
      "s = \<lparr>interfaces = interfaces ?r @ [(next_ptr ?r, obj)], next_ptr = Suc (next_ptr ?r)\<rparr>"
      "obj_path obj = productName"
      using t by blast
    then have "interfaces s = [(0, manager_object), (next_ptr (objServer st), obj)] \<and>
               obj_path obj = productName"
      by simp
    then show "\<exists>q obj. interfaces s = [(0, manager_object), (q, obj)] \<and> obj_path obj = productName"
      by blast
  qed
  show ?thesis
  proof (cases "ifaceFruDevice st")
    case None
    then have "objServer st = ?r" using settled_removed [OF assms] by simp
    then have "rescanBus_trace sc fs (objServer st) (ifaceFruDevice st) =
                 AddFRUObjectToDbus_trace sc fs ?r"
      using None by (simp add: rescanBus_trace_def)
    then show ?thesis using t' by simp
  next
    case (Some p)
    then have "remove_interface (objServer st) p = ?r" using settled_removed [OF assms] by simp
    then have "rescanBus_trace sc fs (objServer st) (ifaceFruDevice st) =
                 ?r # AddFRUObjectToDbus_trace sc fs ?r"
      using Some by (simp add: rescanBus_trace_def)
    then show ?thesis using t' by simp
  qed
qed

lemma get_property_last:
  assumes "list_all (\<lambda>e. fst e \<noteq> p) base"
  shows "get_property \<lparr>interfaces = base @ [(p, obj)], next_ptr = n\<rparr> p name =
           map_of (properties obj) name"
proof -
  have "map_of base p = None"
    using assms by (induction base) (auto split: if_splits)
  then show ?thesis by (simp add: get_property_def map_add_def)
qed

lemma startup_no_eeprom:
  assumes "list_all (\<lambda>e. fs e = None) eeproms"
  shows "startup sc fs =
     \<lparr>objServer = \<lparr>interfaces = [(0, manager_object), (1, fru_object fs [])],
                   next_ptr = 2\<rparr>,
      ifaceFruDevice = Some 1, ifaceFruDeviceManager = Some 0\<rparr>"
proof -
  have f: "fresh_ptrs \<lparr>interfaces = [(0, manager_object)], next_ptr = Suc 0\<rparr>"
    by (rule fresh_manager_only) simp
  show ?thesis
    unfolding startup_def ReScan_def main_init_eq rescanBus_def
    by (simp add: AddFRU_none [OF f assms])
qed

lemma GetServerId_not_opened: "fs server_id_path = None \<Longrightarrow> GetServerId fs = unknown"
  using open_server_id_None [of fs] by (simp add: GetServerId_def)

section \<open>Scanning\<close>

text \<open>
  C2, for what the code does: when no candidate opens, the scan still creates and
  initializes the FRU interface at the fixed path, with the server identifier and the
  manufacturer as its only properties. The six EEPROM fields are registered inside the
  branch taken when a candidate opens, so here none of them is registered: reading any
  of the six names finds no property.
\<close>

theorem scan_without_eeprom:
  assumes "fresh_ptrs srv" and "list_all (\<lambda>e. fs e = None) eeproms"
  shows "AddFRUObjectToDbus sc fs srv =
           (\<lparr>interfaces = interfaces srv @
               [(next_ptr srv,
                 \<lparr>obj_path = productName, iface_name = ''xyz.openbmc_project.FruDevice'',
                  properties = [(''SERVER_ID'', GetServerId fs),
                                (''PRODUCT_MANUFACTURER'', GetManufactuer)],
                  methods = [], initialized = True\<rparr>)],
             next_ptr = Suc (next_ptr srv)\<rparr>, next_ptr srv) \<and>
         list_all (\<lambda>name. get_property (fst (AddFRUObjectToDbus sc fs srv)) (next_ptr srv) name = None)
           [''PRODUCT_PART_NUMBER'', ''PRODUCT_SERIAL_NUMBER'', ''PCA_PART_NUMBER'',
            ''PCA_SERIAL_NUMBER'', ''MAC0'', ''MAC1'']"
  by (simp add: AddFRU_none [OF assms] fru_object_def
      get_property_last [OF fresh_ptrs_neq [OF assms(1)]])

theorem scan_without_eeprom_witness:
  "fresh_ptrs object_server_new \<and>
   list_all (\<lambda>e. map_of [(server_id_path, ''SN123'')] e = None) eeproms \<and>
   AddFRUObjectToDbus False (map_of [(server_id_path, ''SN123'')]) object_server_new =
     (\<lparr>interfaces =
         [(0, \<lparr>obj_path = productName, iface_name = ''xyz.openbmc_project.FruDevice'',
               properties = [(''SERVER_ID'', ''SN123''),
                             (''PRODUCT_MANUFACTURER'', ''Hewlett Packard Enterprise'')],
               methods = [], initialized = True\<rparr>)],
       next_ptr = 1\<rparr>, 0)"
proof -
  define fs :: filesystem where "fs = map_of [(server_id_path, ''SN123'')]"
  have h1: "fresh_ptrs object_server_new"
    by (simp add: fresh_ptrs_def object_server_new_def)
  have h2: "list_all (\<lambda>e. fs e = None) eeproms"
    by (simp add: fs_def eeproms_def server_id_path_def)
  have "fs server_id_path = Some ''SN123''" by (simp add: fs_def)
  then have "GetServerId fs = takeWhile (\<lambda>c. c \<noteq> CHR 0x0A) ''SN123''"
    by (rule GetServerId_opened [of fs "''SN123''"])
  then have s: "GetServerId fs = ''SN123''" by simp
  have "fresh_ptrs object_server_new \<and> list_all (\<lambda>e. fs e = None) eeproms \<and>
        AddFRUObjectToDbus False fs object_server_new =
          (\<lparr>interfaces =
              [(0, \<lparr>obj_path = productName, iface_name = ''xyz.openbmc_project.FruDevice'',
                    properties = [(''SERVER_ID'', ''SN123''),
                                  (''PRODUCT_MANUFACTURER'', ''Hewlett Packard Enterprise'')],
                    methods = [], initialized = True\<rparr>)],
            next_ptr = 1\<rparr>, 0)"
    using h1 h2 scan_without_eeprom [OF h1 h2, of False]
    by (simp add: s GetManufactuer_def object_server_new_def)
  then show ?thesis unfolding fs_def .
qed

text \<open>
  C2 as stated fails: after the start of the program with no file present the FRU
  interface is published, and none of the six names has the value Unknown, because
  none of them is a property of the interface.
\<close>

theorem scan_without_eeprom_counterexample:
  "ifaceFruDevice (startup False (map_of [])) = Some 1 \<and>
   map_of (interfaces (objServer (startup False (map_of [])))) 1 =
     Some \<lparr>obj_path = productName, iface_name = ''xyz.openbmc_project.FruDevice'',
           properties = [(''SERVER_ID'', ''Unknown''),
                         (''PRODUCT_MANUFACTURER'', ''Hewlett Packard Enterprise'')],
           methods = [], initialized = True\<rparr> \<and>
   get_property (objServer (startup False (map_of []))) 1 ''PRODUCT_PART_NUMBER'' = None \<and>
   get_property (objServer (startup False (map_of []))) 1 ''PRODUCT_SERIAL_NUMBER'' = None \<and>
   get_property (objServer (startup False (map_of []))) 1 ''PCA_PART_NUMBER'' = None \<and>
   get_property (objServer (startup False (map_of []))) 1 ''PCA_SERIAL_NUMBER'' = None \<and>
   get_property (objServer (startup False (map_of []))) 1 ''MAC0'' = None \<and>
   get_property (objServer (startup False (map_of []))) 1 ''MAC1'' = None"
proof -
  define fs :: filesystem where "fs = map_of []"
  have n: "list_all (\<lambda>e. fs e = None) eeproms" by (simp add: fs_def list_all_iff)
  have "fs server_id_path = None" by (simp add: fs_def)
  then have s: "GetServerId fs = unknown" by (rule GetServerId_not_opened)
  have "ifaceFruDevice (startup False fs) = Some 1 \<and>
   map_of (interfaces (objServer (startup False fs))) 1 =
     Some \<lparr>obj_path = productName, iface_name = ''xyz.openbmc_project.FruDevice'',
           properties = [(''SERVER_ID'', ''Unknown''),
                         (''PRODUCT_MANUFACTURER'', ''Hewlett Packard Enterprise'')],
           methods = [], initialized = True\<rparr> \<and>
   get_property (objServer (startup False fs)) 1 ''PRODUCT_PART_NUMBER'' = None \<and>
   get_property (objServer (startup False fs)) 1 ''PRODUCT_SERIAL_NUMBER'' = None \<and>
   get_property (objServer (startup False fs)) 1 ''PCA_PART_NUMBER'' = None \<and>
   get_property (objServer (startup False fs)) 1 ''PCA_SERIAL_NUMBER'' = None \<and>
   get_property (objServer (startup False fs)) 1 ''MAC0'' = None \<and>
   get_property (objServer (startup False fs)) 1 ''MAC1'' = None"
    by (simp add: startup_no_eeprom [OF n] s get_property_def fru_object_def
        GetManufactuer_def unknown_def)
  then show ?thesis unfolding fs_def .
qed

text \<open>
  C5: the candidates are tried in their order in \<open>eeproms\<close>. When candidate \<open>i\<close> opens and
  none before it does, the six properties of the published interface are the fields
  read from the bytes of candidate \<open>i\<close>, whatever the later candidates are, and the
  stream is closed when the loop ends.
\<close>

theorem scan_decodes_first_candidate:
  assumes "fresh_ptrs srv" and "i < length eeproms"
    and "\<forall>j<i. fs (eeproms ! j) = None" and "fs (eeproms ! i) = Some b"
  shows "AddFRUObjectToDbus sc fs srv =
           (\<lparr>interfaces = interfaces srv @
               [(next_ptr srv,
                 fru_object fs
                   [(''PRODUCT_PART_NUMBER'', PRODUCT_PART_NUMBER (fst (read_fields sc (opened b)))),
                    (''PRODUCT_SERIAL_NUMBER'', PRODUCT_SERIAL_NUMBER (fst (read_fields sc (opened b)))),
                    (''PCA_PART_NUMBER'', PCA_PART_NUMBER (fst (read_fields sc (opened b)))),
                    (''PCA_SERIAL_NUMBER'', PCA_SERIAL_NUMBER (fst (read_fields sc (opened b)))),
                    (''MAC0'', MAC0 (fst (read_fields sc (opened b)))),
                    (''MAC1'', MAC1 (fst (read_fields sc (opened b))))])],
             next_ptr = Suc (next_ptr srv)\<rparr>, next_ptr srv) \<and>
         \<not> is_open (snd (eeprom_loop sc fs eeproms ifstream_new srv (next_ptr srv)))"
  using AddFRU_open [OF assms] eeprom_loop_closes [OF assms(2,3,4)] by simp

theorem scan_decodes_first_candidate_witness:
  "AddFRUObjectToDbus False
     (map_of [(eeproms ! 1, replicate 176 CHR ''B''), (eeproms ! 2, replicate 176 CHR ''C'')])
     object_server_new =
   (\<lparr>interfaces =
       [(0, fru_object
              (map_of [(eeproms ! 1, replicate 176 CHR ''B''), (eeproms ! 2, replicate 176 CHR ''C'')])
              [(''PRODUCT_PART_NUMBER'', replicate 16 CHR ''B''),
               (''PRODUCT_SERIAL_NUMBER'', replicate 16 CHR ''B''),
               (''PCA_PART_NUMBER'', replicate 16 CHR ''B''),
               (''PCA_SERIAL_NUMBER'', replicate 16 CHR ''B''),
               (''MAC0'', ''42:42:42:42:42:42''),
               (''MAC1'', ''42:42:42:42:42:42'')])],
     next_ptr = 1\<rparr>, 0)"
proof -
  define fs :: filesystem where
    "fs = map_of [(eeproms ! 1, replicate 176 CHR ''B''), (eeproms ! 2, replicate 176 CHR ''C'')]"
  have h1: "fresh_ptrs object_server_new"
    by (simp add: fresh_ptrs_def object_server_new_def)
  have h2: "(1::nat) < length eeproms" by (simp add: eeproms_def)
  have h3: "\<forall>j<(1::nat). fs (eeproms ! j) = None" by (simp add: fs_def eeproms_def)
  have h4: "fs (eeproms ! 1) = Some (replicate 176 CHR ''B'')" by (simp add: fs_def)
  have o: "is_open (opened (replicate 176 CHR ''B''))" "\<not> fail (opened (replicate 176 CHR ''B''))"
    "176 \<le> length (content (opened (replicate 176 CHR ''B'')))"
    by (simp_all add: opened_def fail_def)
  have m: "mac_string False (replicate 6 CHR ''B'') = ''42:42:42:42:42:42''"
    by (simp add: replicate_6 mac_string_6 char_to_int_def put_hex_byte hex_digit_def)
  have r: "fst (read_fields False (opened (replicate 176 CHR ''B''))) =
             \<lparr>PRODUCT_PART_NUMBER = replicate 16 CHR ''B'',
              PRODUCT_SERIAL_NUMBER = replicate 16 CHR ''B'',
              PCA_PART_NUMBER = replicate 16 CHR ''B'',
              PCA_SERIAL_NUMBER = replicate 16 CHR ''B'',
              MAC0 = ''42:42:42:42:42:42'', MAC1 = ''42:42:42:42:42:42''\<rparr>"
    unfolding read_fields_full [OF o] by (simp add: opened_def m)
  have "AddFRUObjectToDbus False fs object_server_new =
   (\<lparr>interfaces =
       [(0, fru_object fs
              [(''PRODUCT_PART_NUMBER'', replicate 16 CHR ''B''),
               (''PRODUCT_SERIAL_NUMBER'', replicate 16 CHR ''B''),
               (''PCA_PART_NUMBER'', replicate 16 CHR ''B''),
               (''PCA_SERIAL_NUMBER'', replicate 16 CHR ''B''),
               (''MAC0'', ''42:42:42:42:42:42''),
               (''MAC1'', ''42:42:42:42:42:42'')])],
     next_ptr = 1\<rparr>, 0)"
    using scan_decodes_first_candidate [OF h1 h2 h3 h4, of False]
    unfolding r by (simp add: object_server_new_def)
  then show ?thesis unfolding fs_def .
qed

lemma AddFRU_open_property:
  assumes "fresh_ptrs srv" and "i < length eeproms"
    and "\<forall>j<i. fs (eeproms ! j) = None" and "fs (eeproms ! i) = Some b"
  shows "map (get_property (fst (AddFRUObjectToDbus sc fs srv)) (snd (AddFRUObjectToDbus sc fs srv)))
           [''PRODUCT_PART_NUMBER'', ''PRODUCT_SERIAL_NUMBER'', ''PCA_PART_NUMBER'',
            ''PCA_SERIAL_NUMBER'', ''MAC0'', ''MAC1''] =
         [Some (PRODUCT_PART_NUMBER (fst (read_fields sc (opened b)))),
          Some (PRODUCT_SERIAL_NUMBER (fst (read_fields sc (opened b)))),
          Some (PCA_PART_NUMBER (fst (read_fields sc (opened b)))),
          Some (PCA_SERIAL_NUMBER (fst (read_fields sc (opened b)))),
          Some (MAC0 (fst (read_fields sc (opened b)))),
          Some (MAC1 (fst (read_fields sc (opened b))))]"
  by (simp add: AddFRU_open [OF assms] fru_object_def
      get_property_last [OF fresh_ptrs_neq [OF assms(1)]])

text \<open>
  C9: the six published fields depend on the bytes of the decoded source and on nothing
  else the program holds. Take two scans, in any two states of the object server and
  over any two file systems, whose first candidate that opens has the same bytes; the
  candidate may be a different one in each, so that one stream has failed opens behind
  it and the other has none, and the server identifier and the later candidates may
  differ. Then the six properties are registered in both and have the same values. For
  the stream itself: whatever flags and position it had before the open, the six fields
  read after the open are the same.
\<close>

theorem decoded_fields_depend_on_bytes_only:
  assumes "fresh_ptrs srv1" and "i1 < length eeproms"
    and "\<forall>j<i1. fs1 (eeproms ! j) = None" and "fs1 (eeproms ! i1) = Some b"
    and "fresh_ptrs srv2" and "i2 < length eeproms"
    and "\<forall>j<i2. fs2 (eeproms ! j) = None" and "fs2 (eeproms ! i2) = Some b"
  shows "map (get_property (fst (AddFRUObjectToDbus sc fs1 srv1))
                (snd (AddFRUObjectToDbus sc fs1 srv1)))
           [''PRODUCT_PART_NUMBER'', ''PRODUCT_SERIAL_NUMBER'', ''PCA_PART_NUMBER'',
            ''PCA_SERIAL_NUMBER'', ''MAC0'', ''MAC1''] =
         map (get_property (fst (AddFRUObjectToDbus sc fs2 srv2))
                (snd (AddFRUObjectToDbus sc fs2 srv2)))
           [''PRODUCT_PART_NUMBER'', ''PRODUCT_SERIAL_NUMBER'', ''PCA_PART_NUMBER'',
            ''PCA_SERIAL_NUMBER'', ''MAC0'', ''MAC1''] \<and>
         list_all (\<lambda>name. get_property (fst (AddFRUObjectToDbus sc fs1 srv1))
                            (snd (AddFRUObjectToDbus sc fs1 srv1)) name \<noteq> None)
           [''PRODUCT_PART_NUMBER'', ''PRODUCT_SERIAL_NUMBER'', ''PCA_PART_NUMBER'',
            ''PCA_SERIAL_NUMBER'', ''MAC0'', ''MAC1''] \<and>
         (\<forall>fin1 fin2. \<not> is_open fin1 \<and> \<not> is_open fin2 \<longrightarrow>
            fst (read_fields sc (open_file fin1 fs1 (eeproms ! i1))) =
            fst (read_fields sc (open_file fin2 fs2 (eeproms ! i2))))"
proof -
  note p1 = AddFRU_open_property [OF assms(1,2,3,4), of sc]
  note p2 = AddFRU_open_property [OF assms(5,6,7,8), of sc]
  have a: "map (get_property (fst (AddFRUObjectToDbus sc fs1 srv1))
                (snd (AddFRUObjectToDbus sc fs1 srv1)))
           [''PRODUCT_PART_NUMBER'', ''PRODUCT_SERIAL_NUMBER'', ''PCA_PART_NUMBER'',
            ''PCA_SERIAL_NUMBER'', ''MAC0'', ''MAC1''] =
         map (get_property (fst (AddFRUObjectToDbus sc fs2 srv2))
                (snd (AddFRUObjectToDbus sc fs2 srv2)))
           [''PRODUCT_PART_NUMBER'', ''PRODUCT_SERIAL_NUMBER'', ''PCA_PART_NUMBER'',
            ''PCA_SERIAL_NUMBER'', ''MAC0'', ''MAC1'']"
    unfolding p1 p2 by (rule refl)
  have b: "list_all (\<lambda>name. get_property (fst (AddFRUObjectToDbus sc fs1 srv1))
                            (snd (AddFRUObjectToDbus sc fs1 srv1)) name \<noteq> None)
           [''PRODUCT_PART_NUMBER'', ''PRODUCT_SERIAL_NUMBER'', ''PCA_PART_NUMBER'',
            ''PCA_SERIAL_NUMBER'', ''MAC0'', ''MAC1'']"
    using p1 by simp
  have c: "\<forall>fin1 fin2. \<not> is_open fin1 \<and> \<not> is_open fin2 \<longrightarrow>
            fst (read_fields sc (open_file fin1 fs1 (eeproms ! i1))) =
            fst (read_fields sc (open_file fin2 fs2 (eeproms ! i2)))"
  proof (intro allI impI)
    fix fin1 fin2 :: ifstream
    assume h: "\<not> is_open fin1 \<and> \<not> is_open fin2"
    have o1: "open_file fin1 fs1 (eeproms ! i1) = opened b"
      using h assms(4) by (simp add: open_closed_Some [where fs = fs1 and b = b])
    have o2: "open_file fin2 fs2 (eeproms ! i2) = opened b"
      using h assms(8) by (simp add: open_closed_Some [where fs = fs2 and b = b])
    show "fst (read_fields sc (open_file fin1 fs1 (eeproms ! i1))) =
          fst (read_fields sc (open_file fin2 fs2 (eeproms ! i2)))"
      unfolding o1 o2 by (rule refl)
  qed
  show ?thesis using a b c by blast
qed


theorem decoded_fields_depend_on_bytes_only_witness:
  "map (get_property
          (fst (AddFRUObjectToDbus False
                  (map_of [(eeproms ! 0, replicate 109 CHR ''x'' @ ''PN-0123456789abc'' @
                                           replicate 51 CHR ''y''),
                           (server_id_path, ''SN123'')])
                  object_server_new)) 0)
     [''PRODUCT_PART_NUMBER'', ''PRODUCT_SERIAL_NUMBER'', ''PCA_PART_NUMBER'',
      ''PCA_SERIAL_NUMBER'', ''MAC0'', ''MAC1''] =
   map (get_property
          (fst (AddFRUObjectToDbus False
                  (map_of [(eeproms ! 2, replicate 109 CHR ''x'' @ ''PN-0123456789abc'' @
                                           replicate 51 CHR ''y'')])
                  \<lparr>interfaces = [(0, manager_object)], next_ptr = 7\<rparr>)) 7)
     [''PRODUCT_PART_NUMBER'', ''PRODUCT_SERIAL_NUMBER'', ''PCA_PART_NUMBER'',
      ''PCA_SERIAL_NUMBER'', ''MAC0'', ''MAC1''] \<and>
   get_property
     (fst (AddFRUObjectToDbus False
             (map_of [(eeproms ! 2, replicate 109 CHR ''x'' @ ''PN-0123456789abc'' @
                                      replicate 51 CHR ''y'')])
             \<lparr>interfaces = [(0, manager_object)], next_ptr = 7\<rparr>)) 7
     ''PRODUCT_PART_NUMBER'' = Some ''PN-0123456789abc''"
proof -
  define b where "b = replicate 109 CHR ''x'' @ ''PN-0123456789abc'' @ replicate 51 CHR ''y''"
  define fs1 :: filesystem where "fs1 = map_of [(eeproms ! 0, b), (server_id_path, ''SN123'')]"
  define fs2 :: filesystem where "fs2 = map_of [(eeproms ! 2, b)]"
  define srv2 where "srv2 = \<lparr>interfaces = [(0, manager_object)], next_ptr = 7\<rparr>"
  have a1: "fresh_ptrs object_server_new"
    by (simp add: fresh_ptrs_def object_server_new_def)
  have a2: "(0::nat) < length eeproms" by (simp add: eeproms_def)
  have a3: "\<forall>j<(0::nat). fs1 (eeproms ! j) = None" by simp
  have a4: "fs1 (eeproms ! 0) = Some b" by (simp add: fs1_def)
  have b1: "fresh_ptrs srv2" unfolding srv2_def by (rule fresh_manager_only) simp
  have b2: "(2::nat) < length eeproms" by (simp add: eeproms_def)
  have b3: "\<forall>j<(2::nat). fs2 (eeproms ! j) = None"
  proof (intro allI impI)
    fix j :: nat assume "j < 2"
    then have "j = 0 \<or> j = 1" by arith
    then show "fs2 (eeproms ! j) = None" by (auto simp: fs2_def eeproms_def)
  qed
  have b4: "fs2 (eeproms ! 2) = Some b" by (simp add: fs2_def)
  note T = decoded_fields_depend_on_bytes_only [OF a1 a2 a3 a4 b1 b2 b3 b4, of False]
  have n1: "snd (AddFRUObjectToDbus False fs1 object_server_new) = 0"
    unfolding AddFRU_open [OF a1 a2 a3 a4] by (simp add: object_server_new_def)
  have n2: "snd (AddFRUObjectToDbus False fs2 srv2) = 7"
    unfolding AddFRU_open [OF b1 b2 b3 b4] by (simp add: srv2_def)
  have o: "is_open (opened b)" "\<not> fail (opened b)" "176 \<le> length (content (opened b))"
    by (simp_all add: opened_def fail_def b_def)
  have pn: "PRODUCT_PART_NUMBER (fst (read_fields False (opened b))) = ''PN-0123456789abc''"
    unfolding read_fields_full [OF o] by (simp add: opened_def b_def)
  have e: "map (get_property (fst (AddFRUObjectToDbus False fs1 object_server_new)) 0)
             [''PRODUCT_PART_NUMBER'', ''PRODUCT_SERIAL_NUMBER'', ''PCA_PART_NUMBER'',
              ''PCA_SERIAL_NUMBER'', ''MAC0'', ''MAC1''] =
           map (get_property (fst (AddFRUObjectToDbus False fs2 srv2)) 7)
             [''PRODUCT_PART_NUMBER'', ''PRODUCT_SERIAL_NUMBER'', ''PCA_PART_NUMBER'',
              ''PCA_SERIAL_NUMBER'', ''MAC0'', ''MAC1'']"
    using T unfolding n1 n2 by blast
  have v: "get_property (fst (AddFRUObjectToDbus False fs2 srv2)) 7 ''PRODUCT_PART_NUMBER'' =
             Some ''PN-0123456789abc''"
    using AddFRU_open_property [OF b1 b2 b3 b4, of False] unfolding n2 pn by simp
  show ?thesis using e v unfolding fs1_def fs2_def srv2_def b_def by blast
qed

section \<open>Rescanning\<close>

lemma rescanBus_trace_nonempty: "rescanBus_trace sc fs srv iface \<noteq> []"
  by (cases iface) (simp_all add: rescanBus_trace_def AddFRU_trace_nonempty)

lemma rescanBus_trace_objects:
  assumes "settled st" and "s \<in> set (rescanBus_trace sc fs (objServer st) (ifaceFruDevice st))"
  shows "length (objects_at s productName) \<le> 1"
    and "objects_at s managerPath = [(0, manager_object)]"
    and "map_of (interfaces s) 0 = Some manager_object"
proof -
  from rescanBus_trace_settled [OF assms(1), of sc fs] assms(2)
  consider "interfaces s = [(0, manager_object)]"
    | q obj where "interfaces s = [(0, manager_object), (q, obj)]" "obj_path obj = productName"
    by blast
  then have "length (objects_at s productName) \<le> 1 \<and>
             objects_at s managerPath = [(0, manager_object)] \<and>
             map_of (interfaces s) 0 = Some manager_object"
    using paths_differ by cases (auto simp: objects_at_def manager_object_path)
  then show "length (objects_at s productName) \<le> 1"
    and "objects_at s managerPath = [(0, manager_object)]"
    and "map_of (interfaces s) 0 = Some manager_object"
    by simp_all
qed

lemma rescanBus_None:
  "rescanBus sc fs srv None =
     (fst (AddFRUObjectToDbus sc fs srv), Some (snd (AddFRUObjectToDbus sc fs srv)))"
  by (simp add: rescanBus_def split_def Let_def)

lemma rescanBus_Some:
  "rescanBus sc fs srv (Some p) =
     (fst (AddFRUObjectToDbus sc fs (remove_interface srv p)),
      Some (snd (AddFRUObjectToDbus sc fs (remove_interface srv p))))"
  by (simp add: rescanBus_def split_def Let_def)

lemma settled_reachable: "settled (io_run sc fss main_init)"
  by (rule settled_io_run [OF settled_main_init])

lemma removed_no_fru:
  assumes "settled st" and "ifaceFruDevice st = Some p"
  shows "objects_at (remove_interface (objServer st) p) productName = []"
proof -
  have "remove_interface (objServer st) p =
          \<lparr>interfaces = [(0, manager_object)], next_ptr = next_ptr (objServer st)\<rparr>"
    using settled_removed [OF assms(1)] assms(2) by simp
  then show ?thesis using paths_differ by (simp add: objects_at_def manager_object_path)
qed

text \<open>
  C3: in every state the program reaches, before the initial scan (no file system seen
  yet, \<open>ifaceFruDevice\<close> null) or after any number of scans, a rescan behaves as follows.
  When \<open>ifaceFruDevice\<close> holds a pointer, that pointer is the one interface at the FRU
  path, the first step removes it, leaving none at that path, and the rest is a scan of
  the server so obtained. When it is null nothing is removed and the rescan is the scan.
  Every intermediate state has at most one interface at the FRU path, and the state the
  rescan ends in has exactly one, initialized and held by \<open>ifaceFruDevice\<close>.
\<close>

theorem rescan_replaces_fru_object:
  "let st = io_run sc fss main_init;
       tr = rescanBus_trace sc fs (objServer st) (ifaceFruDevice st)
   in ((ifaceFruDevice st = None) = (fss = [])) \<and>
      length (objects_at (objServer st) productName) = (if fss = [] then 0 else 1) \<and>
      (\<forall>p. ifaceFruDevice st = Some p \<longrightarrow>
         map fst (objects_at (objServer st) productName) = [p] \<and>
         tr = remove_interface (objServer st) p #
                AddFRUObjectToDbus_trace sc fs (remove_interface (objServer st) p) \<and>
         objects_at (remove_interface (objServer st) p) productName = [] \<and>
         rescanBus sc fs (objServer st) (Some p) =
           (fst (AddFRUObjectToDbus sc fs (remove_interface (objServer st) p)),
            Some (snd (AddFRUObjectToDbus sc fs (remove_interface (objServer st) p))))) \<and>
      (ifaceFruDevice st = None \<longrightarrow>
         tr = AddFRUObjectToDbus_trace sc fs (objServer st) \<and>
         rescanBus sc fs (objServer st) None =
           (fst (AddFRUObjectToDbus sc fs (objServer st)),
            Some (snd (AddFRUObjectToDbus sc fs (objServer st))))) \<and>
      (\<forall>s \<in> set tr. length (objects_at s productName) \<le> 1) \<and>
      last tr = objServer (ReScan sc fs st) \<and>
      (\<exists>p obj. ifaceFruDevice (ReScan sc fs st) = Some p \<and>
         objects_at (objServer (ReScan sc fs st)) productName = [(p, obj)] \<and> initialized obj)"
proof -
  define st where "st = io_run sc fss main_init"
  define tr where "tr = rescanBus_trace sc fs (objServer st) (ifaceFruDevice st)"
  have s: "settled st" unfolding st_def by (rule settled_reachable)
  have s': "settled (ReScan sc fs st)" using s by (rule settled_ReScan)
  have a: "(ifaceFruDevice st = None) = (fss = [])"
    unfolding st_def by (rule io_run_published)
  have b: "length (objects_at (objServer st) productName) = (if fss = [] then 0 else 1)"
  proof (cases "ifaceFruDevice st")
    case None
    then show ?thesis using objects_at_settled(3) [OF s] a by simp
  next
    case (Some p)
    then show ?thesis using objects_at_settled(4) [OF s Some] a by auto
  qed
  have c: "\<forall>p. ifaceFruDevice st = Some p \<longrightarrow>
         map fst (objects_at (objServer st) productName) = [p] \<and>
         tr = remove_interface (objServer st) p #
                AddFRUObjectToDbus_trace sc fs (remove_interface (objServer st) p) \<and>
         objects_at (remove_interface (objServer st) p) productName = [] \<and>
         rescanBus sc fs (objServer st) (Some p) =
           (fst (AddFRUObjectToDbus sc fs (remove_interface (objServer st) p)),
            Some (snd (AddFRUObjectToDbus sc fs (remove_interface (objServer st) p))))"
  proof (intro allI impI)
    fix p assume p: "ifaceFruDevice st = Some p"
    have 1: "map fst (objects_at (objServer st) productName) = [p]"
      using objects_at_settled(4) [OF s p] by auto
    have 2: "tr = remove_interface (objServer st) p #
                AddFRUObjectToDbus_trace sc fs (remove_interface (objServer st) p)"
      unfolding tr_def p by (simp add: rescanBus_trace_def)
    show "map fst (objects_at (objServer st) productName) = [p] \<and>
         tr = remove_interface (objServer st) p #
                AddFRUObjectToDbus_trace sc fs (remove_interface (objServer st) p) \<and>
         objects_at (remove_interface (objServer st) p) productName = [] \<and>
         rescanBus sc fs (objServer st) (Some p) =
           (fst (AddFRUObjectToDbus sc fs (remove_interface (objServer st) p)),
            Some (snd (AddFRUObjectToDbus sc fs (remove_interface (objServer st) p))))"
      using 1 2 removed_no_fru [OF s p] rescanBus_Some by simp
  qed
  have d: "ifaceFruDevice st = None \<longrightarrow>
         tr = AddFRUObjectToDbus_trace sc fs (objServer st) \<and>
         rescanBus sc fs (objServer st) None =
           (fst (AddFRUObjectToDbus sc fs (objServer st)),
            Some (snd (AddFRUObjectToDbus sc fs (objServer st))))"
    unfolding tr_def using rescanBus_None by (simp add: rescanBus_trace_def)
  have e: "\<forall>s \<in> set tr. length (objects_at s productName) \<le> 1"
    unfolding tr_def using rescanBus_trace_objects(1) [OF s] by blast
  have f: "last tr = objServer (ReScan sc fs st)"
    unfolding tr_def by (simp add: rescanBus_trace_last ReScan_def split_def Let_def)
  have g: "\<exists>p obj. ifaceFruDevice (ReScan sc fs st) = Some p \<and>
         objects_at (objServer (ReScan sc fs st)) productName = [(p, obj)] \<and> initialized obj"
  proof -
    obtain p where p: "ifaceFruDevice (ReScan sc fs st) = Some p"
      using ReScan_published [of sc fs st] by auto
    then show ?thesis using objects_at_settled(4) [OF s' p] by blast
  qed
  show ?thesis
    unfolding Let_def st_def [symmetric] tr_def [symmetric]
    using a b c d e f g by blast
qed

theorem rescan_replaces_fru_object_witness:
  "ifaceFruDevice (io_run False [map_of []] main_init) = Some 1 \<and>
   objects_at (remove_interface (objServer (io_run False [map_of []] main_init)) 1) productName = [] \<and>
   length (objects_at
     (hd (rescanBus_trace False (map_of []) (objServer (io_run False [map_of []] main_init))
            (ifaceFruDevice (io_run False [map_of []] main_init)))) productName) \<le> 1"
proof -
  define fs :: filesystem where "fs = map_of []"
  define st where "st = io_run False [fs] main_init"
  define tr where "tr = rescanBus_trace False fs (objServer st) (ifaceFruDevice st)"
  have n: "list_all (\<lambda>e. fs e = None) eeproms" by (simp add: fs_def list_all_iff)
  have "st = startup False fs" by (simp add: st_def startup_def)
  then have p: "ifaceFruDevice st = Some 1" by (simp add: startup_no_eeprom [OF n])
  have h: "hd tr \<in> set tr" unfolding tr_def using rescanBus_trace_nonempty by simp
  note T = rescan_replaces_fru_object [of False "[fs]" fs, unfolded Let_def,
      folded st_def, folded tr_def]
  have 1: "objects_at (remove_interface (objServer st) 1) productName = []"
    using T p by blast
  have 2: "length (objects_at (hd tr) productName) \<le> 1"
    using T h by blast
  show ?thesis using p 1 2 unfolding tr_def st_def fs_def by simp
qed

text \<open>
  C8: \<^verbatim>\<open>main\<close> creates the manager interface once, at the manager path, with the method
  ReScan, and initializes it. In every state reached by the initial scan and any number
  of rescans, and in every intermediate state of the next rescan, the interface at the
  manager path is that same object under the same pointer, unchanged.
\<close>

theorem manager_object_unchanged:
  "let st = io_run sc fss main_init;
       tr = rescanBus_trace sc fs (objServer st) (ifaceFruDevice st)
   in objServer main_init = \<lparr>interfaces = [(0, manager_object)], next_ptr = 1\<rparr> \<and>
      ifaceFruDeviceManager main_init = Some 0 \<and>
      obj_path manager_object = managerPath \<and>
      iface_name manager_object = ''xyz.openbmc_project.FruDeviceManager'' \<and>
      methods manager_object = [''ReScan''] \<and> initialized manager_object \<and>
      ifaceFruDeviceManager st = Some 0 \<and>
      map_of (interfaces (objServer st)) 0 = Some manager_object \<and>
      objects_at (objServer st) managerPath = [(0, manager_object)] \<and>
      (\<forall>s \<in> set tr. map_of (interfaces s) 0 = Some manager_object \<and>
                     objects_at s managerPath = [(0, manager_object)])"
proof -
  define st where "st = io_run sc fss main_init"
  define tr where "tr = rescanBus_trace sc fs (objServer st) (ifaceFruDevice st)"
  have s: "settled st" unfolding st_def by (rule settled_reachable)
  have a: "objServer main_init = \<lparr>interfaces = [(0, manager_object)], next_ptr = 1\<rparr> \<and>
      ifaceFruDeviceManager main_init = Some 0"
    by (simp add: main_init_eq)
  have b: "obj_path manager_object = managerPath \<and>
      iface_name manager_object = ''xyz.openbmc_project.FruDeviceManager'' \<and>
      methods manager_object = [''ReScan''] \<and> initialized manager_object"
    by (simp add: manager_object_def)
  have c: "ifaceFruDeviceManager st = Some 0" using s by (simp add: settled_def)
  have d: "map_of (interfaces (objServer st)) 0 = Some manager_object"
    "objects_at (objServer st) managerPath = [(0, manager_object)]"
    using objects_at_settled(1,2) [OF s] by simp_all
  have e: "\<forall>s \<in> set tr. map_of (interfaces s) 0 = Some manager_object \<and>
                     objects_at s managerPath = [(0, manager_object)]"
    unfolding tr_def using rescanBus_trace_objects(2,3) [OF s] by blast
  show ?thesis
    unfolding Let_def st_def [symmetric] tr_def [symmetric]
    using a b c d e by blast
qed


theorem manager_object_unchanged_witness:
  "objects_at
     (hd (rescanBus_trace False (map_of []) (objServer (io_run False [map_of []] main_init))
            (ifaceFruDevice (io_run False [map_of []] main_init)))) managerPath
     = [(0, manager_object)]"
proof -
  define fs :: filesystem where "fs = map_of []"
  define st where "st = io_run False [fs] main_init"
  define tr where "tr = rescanBus_trace False fs (objServer st) (ifaceFruDevice st)"
  have h: "hd tr \<in> set tr" unfolding tr_def using rescanBus_trace_nonempty by simp
  note T = manager_object_unchanged [of False "[fs]" fs, unfolded Let_def,
      folded st_def, folded tr_def]
  have "objects_at (hd tr) managerPath = [(0, manager_object)]"
    using T h by blast
  then show ?thesis unfolding tr_def st_def fs_def .
qed

end
